theory Spec2Isabelle
  imports Complex_Main "HOL-Library.AList" "HOL-Library.Sublist"
begin

section \<open>Python values and exceptions\<close>

text \<open>
  The module \<^verbatim>\<open>SlicerNNUNetLib/Parameter.py\<close> is embedded function by function. A Python
  \<^verbatim>\<open>str\<close> is a \<^typ>\<open>string\<close> whose characters stand for the code points below 256, a
  Python \<^verbatim>\<open>int\<close> is an \<^typ>\<open>int\<close>, and a call that can raise returns \<open>exn + 'a\<close>
  with the exception on the left.
\<close>

datatype exn =
    ValueError
  | TypeError
  | AttributeError
  | IndexError
  | OSError
  | JSONDecodeError
  | RuntimeError string

subsection \<open>Strings: \<^verbatim>\<open>str.strip\<close>, \<^verbatim>\<open>str.split\<close>, \<^verbatim>\<open>str.join\<close>\<close>

text \<open>
  \<^verbatim>\<open>str.isspace\<close> on the code points below 256: TAB to CR, FS to US, the space, NEL and the
  no-break space.
\<close>

definition is_space :: "char \<Rightarrow> bool" where
  "is_space c =
     (let n = of_char c :: nat
      in (9 \<le> n \<and> n \<le> 13) \<or> (28 \<le> n \<and> n \<le> 32) \<or> n = 133 \<or> n = 160)"

definition strip :: "string \<Rightarrow> string" where
  "strip s = rev (dropWhile is_space (rev (dropWhile is_space s)))"

text \<open>
  \<^verbatim>\<open>s.split(sep)\<close> for a non-empty separator: the text is cut at every occurrence of
  \<open>sep\<close>, found from the left without overlap. The first argument is the piece read so
  far, reversed.
\<close>

fun split_acc :: "string \<Rightarrow> string \<Rightarrow> string \<Rightarrow> string list" where
  "split_acc acc sep [] = [rev acc]"
| "split_acc acc sep (c # cs) =
     (if sep \<noteq> [] \<and> prefix sep (c # cs)
      then rev acc # split_acc [] sep (drop (length sep - 1) cs)
      else split_acc (c # acc) sep cs)"

definition split :: "string \<Rightarrow> string \<Rightarrow> string list" where
  "split s sep = split_acc [] sep s"

fun join :: "string \<Rightarrow> string list \<Rightarrow> string" where
  "join sep [] = []"
| "join sep [x] = x"
| "join sep (x # y # ys) = x @ sep @ join sep (y # ys)"

subsection \<open>Integers: \<^verbatim>\<open>str(int)\<close> and \<^verbatim>\<open>int(str)\<close>\<close>

definition digit_char :: "nat \<Rightarrow> char" where
  "digit_char d = char_of (48 + d)"

fun str_nat :: "nat \<Rightarrow> string" where
  "str_nat n = (if n < 10 then [digit_char n] else str_nat (n div 10) @ [digit_char (n mod 10)])"

declare str_nat.simps [simp del]

definition str_int :: "int \<Rightarrow> string" where
  "str_int i = (if i < 0 then CHR ''-'' # str_nat (nat (- i)) else str_nat (nat i))"

definition is_digit :: "char \<Rightarrow> bool" where
  "is_digit c = (let n = of_char c :: nat in 48 \<le> n \<and> n \<le> 57)"

definition digit_val :: "char \<Rightarrow> nat" where
  "digit_val c = of_char c - 48"

text \<open>
  The digits of a decimal literal, read from the left with the value so far. Python
  allows one underscore between two digits; the flag says whether the previous
  character was a digit, so that an underscore may follow.
\<close>

fun int_digits :: "bool \<Rightarrow> nat \<Rightarrow> string \<Rightarrow> exn + nat" where
  "int_digits after_digit acc [] = (if after_digit then Inr acc else Inl ValueError)"
| "int_digits after_digit acc (c # cs) =
     (if is_digit c then int_digits True (10 * acc + digit_val c) cs
      else if c = CHR ''_'' \<and> after_digit \<and> cs \<noteq> [] \<and> is_digit (hd cs)
      then int_digits False acc cs
      else Inl ValueError)"

text \<open>
  \<^verbatim>\<open>int(s)\<close> in base 10: surrounding whitespace is stripped, one sign is allowed, and
  what is left must be a decimal literal; anything else raises \<^verbatim>\<open>ValueError\<close>.
\<close>

definition py_int :: "string \<Rightarrow> exn + int" where
  "py_int s =
     (case strip s of
        [] \<Rightarrow> Inl ValueError
      | c # cs \<Rightarrow>
          if c = CHR ''-'' then
            (case int_digits False 0 cs of Inl e \<Rightarrow> Inl e | Inr n \<Rightarrow> Inr (- int n))
          else if c = CHR ''+'' then
            (case int_digits False 0 cs of Inl e \<Rightarrow> Inl e | Inr n \<Rightarrow> Inr (int n))
          else
            (case int_digits False 0 (c # cs) of Inl e \<Rightarrow> Inl e | Inr n \<Rightarrow> Inr (int n)))"

text \<open>A list comprehension whose body can raise: the first exception ends it.\<close>

fun traverse :: "('a \<Rightarrow> exn + 'b) \<Rightarrow> 'a list \<Rightarrow> exn + 'b list" where
  "traverse f [] = Inr []"
| "traverse f (x # xs) =
     (case f x of
        Inl e \<Rightarrow> Inl e
      | Inr y \<Rightarrow> (case traverse f xs of Inl e \<Rightarrow> Inl e | Inr ys \<Rightarrow> Inr (y # ys)))"

text \<open>\<^verbatim>\<open>xs[i]\<close>: a negative index counts from the end, an index out of range raises.\<close>

definition py_index :: "'a list \<Rightarrow> int \<Rightarrow> exn + 'a" where
  "py_index xs i =
     (if 0 \<le> i \<and> i < int (length xs) then Inr (xs ! nat i)
      else if i < 0 \<and> - i \<le> int (length xs) then Inr (xs ! nat (int (length xs) + i))
      else Inl IndexError)"

text \<open>The text of a list of integers, as an f-string prints it: \<^verbatim>\<open>[0, 1, 2]\<close>.\<close>

definition repr_int_list :: "int list \<Rightarrow> string" where
  "repr_int_list xs = ''['' @ join '', '' (map str_int xs) @ '']''"

section \<open>Paths\<close>

text \<open>
  A \<^verbatim>\<open>pathlib.Path\<close> of the POSIX flavour: its root (empty, one slash, or two) and its
  components. \<^verbatim>\<open>Path(s)\<close> drops empty components and single dots; \<^verbatim>\<open>Path()\<close> is the
  relative path with no component, printed as a dot, which the operating system resolves
  to the current working directory.
\<close>

datatype path = PosixPath (path_root: string) (path_parts: "string list")

definition path_root_of :: "string \<Rightarrow> string" where
  "path_root_of s =
     (if \<not> prefix ''/'' s then ''''
      else if prefix ''//'' s \<and> \<not> prefix ''///'' s then ''//''
      else ''/'')"

definition Path :: "string \<Rightarrow> path" where
  "Path s = PosixPath (path_root_of s) (filter (\<lambda>c. c \<noteq> '''' \<and> c \<noteq> ''.'') (split s ''/''))"

definition str_path :: "path \<Rightarrow> string" where
  "str_path p =
     (if path_root p = '''' \<and> path_parts p = [] then ''.''
      else path_root p @ join ''/'' (path_parts p))"

definition as_posix :: "path \<Rightarrow> string" where
  "as_posix p = str_path p"

definition parent :: "path \<Rightarrow> path" where
  "parent p =
     (if path_parts p = [] then p else PosixPath (path_root p) (butlast (path_parts p)))"

definition name :: "path \<Rightarrow> string" where
  "name p = (if path_parts p = [] then '''' else last (path_parts p))"

definition joinpath :: "path \<Rightarrow> string \<Rightarrow> path" where
  "joinpath p s =
     (let q = Path s
      in if path_root q \<noteq> '''' then q
         else PosixPath (path_root p) (path_parts p @ path_parts q))"

text \<open>
  The truth value of a path in a condition: the class defines neither \<^verbatim>\<open>__bool__\<close> nor
  \<^verbatim>\<open>__len__\<close>, so every path object is true.
\<close>

definition path_truthy :: "path \<Rightarrow> bool" where
  "path_truthy p = True"

section \<open>JSON\<close>

text \<open>
  Python values as this module meets them, and JSON documents. The text layer of the
  \<^verbatim>\<open>json\<close> library is not modelled character by character: a text is either the text of
  a JSON document, given by the document, or some other text, which \<^verbatim>\<open>json.loads\<close>
  rejects. So \<^verbatim>\<open>json.loads(json.dumps(v))\<close> gives back the document of \<open>v\<close> by
  construction, as the library promises; what this module adds, the encoder's
  \<^verbatim>\<open>default\<close> and the decoder's \<^verbatim>\<open>object_hook\<close>, is modelled in full. A Python
  \<^verbatim>\<open>float\<close> is modelled as a real number.
\<close>

datatype pyval =
    PNone
  | PBool bool
  | PInt int
  | PFloat real
  | PStr string
  | PList "pyval list"
  | PDict "(string \<times> pyval) list"
  | PPath path

datatype json =
    JNull
  | JBool bool
  | JInt int
  | JFloat real
  | JStr string
  | JArr "json list"
  | JObj "(string \<times> json) list"

datatype jtext = JsonText json | OtherText string

text \<open>The truth value of a \<^verbatim>\<open>str\<close>: false for the empty text only.\<close>

fun text_truthy :: "jtext \<Rightarrow> bool" where
  "text_truthy (JsonText j) = True"
| "text_truthy (OtherText s) = (s \<noteq> [])"

lemma traverse_cong [fundef_cong]:
  "xs = ys \<Longrightarrow> (\<And>x. x \<in> set ys \<Longrightarrow> f x = g x) \<Longrightarrow> traverse f xs = traverse g ys"
  by (induction ys arbitrary: xs) (auto split: sum.splits)

text \<open>
  \<^verbatim>\<open>json.JSONEncoder\<close> without a \<^verbatim>\<open>default\<close>: a path is not serialisable and raises
  \<^verbatim>\<open>TypeError\<close>.
\<close>

fun json_encode :: "pyval \<Rightarrow> exn + json" where
  "json_encode PNone = Inr JNull"
| "json_encode (PBool b) = Inr (JBool b)"
| "json_encode (PInt i) = Inr (JInt i)"
| "json_encode (PFloat x) = Inr (JFloat x)"
| "json_encode (PStr s) = Inr (JStr s)"
| "json_encode (PList xs) =
     (case traverse json_encode xs of Inl e \<Rightarrow> Inl e | Inr js \<Rightarrow> Inr (JArr js))"
| "json_encode (PDict kvs) =
     (case traverse (\<lambda>kv. case json_encode (snd kv) of
                               Inl e \<Rightarrow> Inl e
                             | Inr j \<Rightarrow> Inr (fst kv, j)) kvs of
        Inl e \<Rightarrow> Inl e
      | Inr js \<Rightarrow> Inr (JObj js))"
| "json_encode (PPath p) = Inl TypeError"

text \<open>
  \<^verbatim>\<open>_PathEncoder.default\<close>: a path becomes the tagged object; anything else goes to the
  base class, which raises.
\<close>

definition PathEncoder_default :: "pyval \<Rightarrow> exn + pyval" where
  "PathEncoder_default obj =
     (case obj of
        PPath p \<Rightarrow> Inr (PDict [(''_path'', PStr (str_path p))])
      | _ \<Rightarrow> Inl TypeError)"

text \<open>
  The encoder with \<^verbatim>\<open>cls=_PathEncoder\<close>: where the base encoder meets a value it cannot
  serialise it calls \<^verbatim>\<open>default\<close> and encodes what that returns.
\<close>

fun PathEncoder_encode :: "pyval \<Rightarrow> exn + json" where
  "PathEncoder_encode (PList xs) =
     (case traverse PathEncoder_encode xs of Inl e \<Rightarrow> Inl e | Inr js \<Rightarrow> Inr (JArr js))"
| "PathEncoder_encode (PDict kvs) =
     (case traverse (\<lambda>kv. case PathEncoder_encode (snd kv) of
                               Inl e \<Rightarrow> Inl e
                             | Inr j \<Rightarrow> Inr (fst kv, j)) kvs of
        Inl e \<Rightarrow> Inl e
      | Inr js \<Rightarrow> Inr (JObj js))"
| "PathEncoder_encode (PPath p) =
     (case PathEncoder_default (PPath p) of Inl e \<Rightarrow> Inl e | Inr d \<Rightarrow> json_encode d)"
| "PathEncoder_encode v = json_encode v"

definition json_dumps_PathEncoder :: "pyval \<Rightarrow> exn + jtext" where
  "json_dumps_PathEncoder v =
     (case PathEncoder_encode v of Inl e \<Rightarrow> Inl e | Inr j \<Rightarrow> Inr (JsonText j))"

text \<open>
  A \<^verbatim>\<open>dict\<close> built from the members of a JSON object in the order read: a repeated key
  keeps its first place and takes the last value.
\<close>

definition dict_of_pairs :: "(string \<times> 'v) list \<Rightarrow> (string \<times> 'v) list" where
  "dict_of_pairs kvs = fold (\<lambda>kv d. AList.update (fst kv) (snd kv) d) kvs []"

text \<open>
  The decoder with an \<^verbatim>\<open>object_hook\<close>: every object of the document, innermost first,
  is replaced by what the hook returns for its \<^verbatim>\<open>dict\<close>.
\<close>

fun json_decode :: "((string \<times> pyval) list \<Rightarrow> exn + pyval) \<Rightarrow> json \<Rightarrow> exn + pyval" where
  "json_decode hook JNull = Inr PNone"
| "json_decode hook (JBool b) = Inr (PBool b)"
| "json_decode hook (JInt i) = Inr (PInt i)"
| "json_decode hook (JFloat x) = Inr (PFloat x)"
| "json_decode hook (JStr s) = Inr (PStr s)"
| "json_decode hook (JArr js) =
     (case traverse (json_decode hook) js of Inl e \<Rightarrow> Inl e | Inr vs \<Rightarrow> Inr (PList vs))"
| "json_decode hook (JObj kjs) =
     (case traverse (\<lambda>kj. case json_decode hook (snd kj) of
                               Inl e \<Rightarrow> Inl e
                             | Inr v \<Rightarrow> Inr (fst kj, v)) kjs of
        Inl e \<Rightarrow> Inl e
      | Inr kvs \<Rightarrow> hook (dict_of_pairs kvs))"

definition json_loads :: "((string \<times> pyval) list \<Rightarrow> exn + pyval) \<Rightarrow> jtext \<Rightarrow> exn + pyval" where
  "json_loads hook t =
     (case t of OtherText s \<Rightarrow> Inl JSONDecodeError | JsonText j \<Rightarrow> json_decode hook j)"

text \<open>Without a hook an object stays a \<^verbatim>\<open>dict\<close>.\<close>

definition no_hook :: "(string \<times> pyval) list \<Rightarrow> exn + pyval" where
  "no_hook d = Inr (PDict d)"

text \<open>
  \<^verbatim>\<open>_PathEncoder.decodePath\<close>: a \<^verbatim>\<open>dict\<close> with the key \<^verbatim>\<open>_path\<close> becomes
  \<^verbatim>\<open>Path(obj['_path'])\<close>, which raises \<^verbatim>\<open>TypeError\<close> unless the value is a text or a
  path; any other \<^verbatim>\<open>dict\<close> is returned as it is.
\<close>

definition decodePath :: "(string \<times> pyval) list \<Rightarrow> exn + pyval" where
  "decodePath obj =
     (case map_of obj ''_path'' of
        None \<Rightarrow> Inr (PDict obj)
      | Some (PStr s) \<Rightarrow> Inr (PPath (Path s))
      | Some (PPath q) \<Rightarrow> Inr (PPath q)
      | Some _ \<Rightarrow> Inl TypeError)"

section \<open>The parameters and their surroundings\<close>

text \<open>The dataclass \<^verbatim>\<open>Parameter\<close>, field by field, and its default values.\<close>

record Parameter =
  folds :: string
  device :: string
  stepSize :: real
  disableTta :: bool
  nProcessPreprocessing :: int
  nProcessSegmentationExport :: int
  checkPointName :: string
  modelPath :: path

definition Parameter_default :: Parameter where
  "Parameter_default =
     \<lparr>folds = '''', device = ''cuda'', stepSize = 1 / 2, disableTta = True,
      nProcessPreprocessing = 1, nProcessSegmentationExport = 1, checkPointName = '''',
      modelPath = Path ''''\<rparr>"

text \<open>
  What the methods read from outside the object, taken as it is at the time of the
  call: the matches of \<^verbatim>\<open>path.rglob(pattern)\<close> in the order the generator yields them,
  \<^verbatim>\<open>path.exists()\<close>, the text \<^verbatim>\<open>open(path).read()\<close> returns (\<open>None\<close> when the file
  cannot be opened), \<^verbatim>\<open>torch.cuda.is_available()\<close>, and the text an f-string prints
  for a float or a container.
\<close>

record env =
  rglob :: "path \<Rightarrow> string \<Rightarrow> path list"
  exists :: "path \<Rightarrow> bool"
  read_text :: "path \<Rightarrow> jtext option"
  cuda_is_available :: bool
  format_other :: "pyval \<Rightarrow> string"

text \<open>\<^verbatim>\<open>str(v)\<close> as an f-string inserts it.\<close>

definition py_str :: "env \<Rightarrow> pyval \<Rightarrow> string" where
  "py_str E v =
     (case v of
        PNone \<Rightarrow> ''None''
      | PBool b \<Rightarrow> (if b then ''True'' else ''False'')
      | PInt i \<Rightarrow> str_int i
      | PStr s \<Rightarrow> s
      | PPath p \<Rightarrow> str_path p
      | _ \<Rightarrow> format_other E v)"

section \<open>The methods of \<^verbatim>\<open>Parameter\<close>\<close>

text \<open>
  Each method keeps its name; the leading underscore of a private name is dropped. The
  properties are recomputed at every use, as in the source.
\<close>

definition asDict :: "Parameter \<Rightarrow> pyval" where
  "asDict p =
     PDict [(''folds'', PStr (folds p)),
            (''device'', PStr (device p)),
            (''stepSize'', PFloat (stepSize p)),
            (''disableTta'', PBool (disableTta p)),
            (''nProcessPreprocessing'', PInt (nProcessPreprocessing p)),
            (''nProcessSegmentationExport'', PInt (nProcessSegmentationExport p)),
            (''checkPointName'', PStr (checkPointName p)),
            (''modelPath'', PPath (modelPath p))]"

definition datasetPath :: "env \<Rightarrow> Parameter \<Rightarrow> path option" where
  "datasetPath E p =
     (if path_truthy (modelPath p)
      then (case rglob E (modelPath p) ''dataset.json'' of [] \<Rightarrow> None | d # ds \<Rightarrow> Some d)
      else None)"

definition isDatasetPathValid :: "env \<Rightarrow> Parameter \<Rightarrow> bool" where
  "isDatasetPathValid E p = (datasetPath E p \<noteq> None)"

definition foldsAsList :: "Parameter \<Rightarrow> exn + int list" where
  "foldsAsList p =
     (if folds p \<noteq> [] then traverse py_int (split (strip (folds p)) '','') else Inr [0])"

definition configurationFolder :: "env \<Rightarrow> Parameter \<Rightarrow> exn + path" where
  "configurationFolder E p =
     (case datasetPath E p of None \<Rightarrow> Inl AttributeError | Some d \<Rightarrow> Inr (parent d))"

definition datasetFolder :: "env \<Rightarrow> Parameter \<Rightarrow> exn + path" where
  "datasetFolder E p =
     (case configurationFolder E p of Inl e \<Rightarrow> Inl e | Inr c \<Rightarrow> Inr (parent c))"

definition datasetName :: "env \<Rightarrow> Parameter \<Rightarrow> exn + string" where
  "datasetName E p =
     (case datasetFolder E p of Inl e \<Rightarrow> Inl e | Inr d \<Rightarrow> Inr (name d))"

definition modelFolder :: "env \<Rightarrow> Parameter \<Rightarrow> exn + path" where
  "modelFolder E p =
     (case datasetFolder E p of Inl e \<Rightarrow> Inl e | Inr d \<Rightarrow> Inr (parent d))"

definition configurationNameParts :: "env \<Rightarrow> Parameter \<Rightarrow> exn + string list" where
  "configurationNameParts E p =
     (case configurationFolder E p of Inl e \<Rightarrow> Inl e | Inr c \<Rightarrow> Inr (split (name c) ''__''))"

definition getCheckpointName :: "Parameter \<Rightarrow> string" where
  "getCheckpointName p =
     (if checkPointName p \<noteq> [] then checkPointName p else ''checkpoint_final.pth'')"

definition getFoldPaths :: "env \<Rightarrow> Parameter \<Rightarrow> exn + (int \<times> path) list" where
  "getFoldPaths E p =
     (case foldsAsList p of
        Inl e \<Rightarrow> Inl e
      | Inr fs \<Rightarrow>
          traverse (\<lambda>fold. case configurationFolder E p of
                              Inl e \<Rightarrow> Inl e
                            | Inr c \<Rightarrow> Inr (fold, joinpath c (''fold_'' @ str_int fold))) fs)"

definition getMissingFolds :: "env \<Rightarrow> Parameter \<Rightarrow> exn + int list" where
  "getMissingFolds E p =
     (case getFoldPaths E p of
        Inl e \<Rightarrow> Inl e
      | Inr fps \<Rightarrow> Inr (map fst (filter (\<lambda>fp. \<not> exists E (snd fp)) fps)))"

definition getFoldsWithInvalidWeights :: "env \<Rightarrow> Parameter \<Rightarrow> exn + int list" where
  "getFoldsWithInvalidWeights E p =
     (case getFoldPaths E p of
        Inl e \<Rightarrow> Inl e
      | Inr fps \<Rightarrow>
          Inr (map fst (filter (\<lambda>fp. \<not> exists E (joinpath (snd fp) (getCheckpointName p))) fps)))"

definition msg_dataset_missing :: "Parameter \<Rightarrow> string" where
  "msg_dataset_missing p =
     ''Dataset.json file is missing. Provided model dir :'' @ [CHR 0x0A] @ str_path (modelPath p)"

definition msg_missing_folds :: "int list \<Rightarrow> string" where
  "msg_missing_folds missing_folds =
     ''Model folder is missing the following folds : '' @ repr_int_list missing_folds @ ''.''"

definition msg_invalid_weights :: "Parameter \<Rightarrow> int list \<Rightarrow> string" where
  "msg_invalid_weights p folds_with_invalid_weights =
     ''Following model folds don'' @ [CHR 0x27] @ ''t contain '' @ checkPointName p
       @ '' weights : '' @ repr_int_list folds_with_invalid_weights @ ''.''"

definition msg_invalid_folder :: string where
  "msg_invalid_folder =
     ''Invalid nnUNet configuration folder.''
       @ ''  Expected folder name such as <trainer_name>__<plan_name>__<conf_name>''"

definition isValid :: "env \<Rightarrow> Parameter \<Rightarrow> exn + (bool \<times> string)" where
  "isValid E p =
     (if \<not> isDatasetPathValid E p then Inr (False, msg_dataset_missing p)
      else
        (case getMissingFolds E p of
           Inl e \<Rightarrow> Inl e
         | Inr missing_folds \<Rightarrow>
             if missing_folds \<noteq> [] then Inr (False, msg_missing_folds missing_folds)
             else
               (case getFoldsWithInvalidWeights E p of
                  Inl e \<Rightarrow> Inl e
                | Inr folds_with_invalid_weights \<Rightarrow>
                    if folds_with_invalid_weights \<noteq> []
                    then Inr (False, msg_invalid_weights p folds_with_invalid_weights)
                    else
                      (case configurationNameParts E p of
                         Inl e \<Rightarrow> Inl e
                       | Inr ps \<Rightarrow>
                           if \<not> length ps = 3 then Inr (False, msg_invalid_folder)
                           else Inr (True, '''')))))"

text \<open>\<^verbatim>\<open>self._configurationNameParts[i]\<close>.\<close>

definition configurationNamePart :: "env \<Rightarrow> Parameter \<Rightarrow> int \<Rightarrow> exn + string" where
  "configurationNamePart E p i =
     (case configurationNameParts E p of Inl e \<Rightarrow> Inl e | Inr ps \<Rightarrow> py_index ps i)"

text \<open>
  \<^verbatim>\<open>asArgList\<close>: the module \<^verbatim>\<open>torch\<close> is taken to be importable. The list holds texts,
  integers and a float, so its elements are Python values.
\<close>

definition asArgList :: "env \<Rightarrow> Parameter \<Rightarrow> path \<Rightarrow> path \<Rightarrow> exn + pyval list" where
  "asArgList E p inDir outDir =
     (case isValid E p of
        Inl e \<Rightarrow> Inl e
      | Inr (ok, reason) \<Rightarrow>
          if \<not> ok then Inl (RuntimeError (''Invalid nnUNet configuration. '' @ reason))
          else
            (let dev = (if cuda_is_available E then device p else ''cpu'') in
             (case datasetName E p of
                Inl e \<Rightarrow> Inl e
              | Inr dn \<Rightarrow>
             (case configurationNamePart E p 0 of
                Inl e \<Rightarrow> Inl e
              | Inr tr \<Rightarrow>
             (case configurationNamePart E p 1 of
                Inl e \<Rightarrow> Inl e
              | Inr pl \<Rightarrow>
             (case configurationNamePart E p (- 1) of
                Inl e \<Rightarrow> Inl e
              | Inr cf \<Rightarrow>
             (case foldsAsList p of
                Inl e \<Rightarrow> Inl e
              | Inr fs \<Rightarrow>
                  Inr ([PStr ''-i'', PStr (as_posix inDir),
                        PStr ''-o'', PStr (as_posix outDir),
                        PStr ''-d'', PStr dn,
                        PStr ''-tr'', PStr tr,
                        PStr ''-p'', PStr pl,
                        PStr ''-c'', PStr cf,
                        PStr ''-f''] @ map (\<lambda>f. PStr (str_int f)) fs @
                       [PStr ''-npp'', PInt (nProcessPreprocessing p),
                        PStr ''-nps'', PInt (nProcessSegmentationExport p),
                        PStr ''-step_size'', PFloat (stepSize p),
                        PStr ''-device'', PStr dev,
                        PStr ''-chk'', PStr (getCheckpointName p)] @
                       (if disableTta p then [PStr ''--disable_tta''] else [])))))))))"

text \<open>
  \<^verbatim>\<open>readSegmentIdsAndLabelsFromDatasetFile\<close>: \<open>Inr None\<close> is the method returning
  \<^verbatim>\<open>None\<close>. \<^verbatim>\<open>dataset_dict.get\<close> needs a \<^verbatim>\<open>dict\<close>, and gives \<^verbatim>\<open>None\<close> for a key that
  is not there; \<^verbatim>\<open>labels.items\<close> needs a \<^verbatim>\<open>dict\<close> again.
\<close>

definition readSegmentIdsAndLabelsFromDatasetFile ::
  "env \<Rightarrow> Parameter \<Rightarrow> exn + (string \<times> string) list option" where
  "readSegmentIdsAndLabelsFromDatasetFile E p =
     (if \<not> isDatasetPathValid E p then Inr None
      else
        (case datasetPath E p of
           None \<Rightarrow> Inl TypeError
         | Some d \<Rightarrow>
             (case read_text E d of
                None \<Rightarrow> Inl OSError
              | Some t \<Rightarrow>
                  (case json_loads no_hook t of
                     Inl e \<Rightarrow> Inl e
                   | Inr (PDict dataset_dict) \<Rightarrow>
                       (case (case map_of dataset_dict ''labels'' of
                                None \<Rightarrow> PNone
                              | Some v \<Rightarrow> v) of
                          PDict labels \<Rightarrow>
                            Inr (Some (map (\<lambda>kv. (''Segment_'' @ py_str E (snd kv), fst kv)) labels))
                        | _ \<Rightarrow> Inl AttributeError)
                   | Inr _ \<Rightarrow> Inl AttributeError))))"

subsection \<open>Settings\<close>

text \<open>
  The settings objects of the application, by number: each maps a key to the text stored
  under it. Number 0 is the store \<^verbatim>\<open>qt.QSettings()\<close> opens, used when the caller passes
  no settings object.
\<close>

type_synonym qsettings = "nat \<Rightarrow> string \<Rightarrow> jtext option"

definition QSettings_default :: nat where
  "QSettings_default = 0"

definition defaultSettingsKey :: string where
  "defaultSettingsKey = ''SlicerNNUNet/Parameter''"

definition toSettings :: "Parameter \<Rightarrow> nat option \<Rightarrow> string \<Rightarrow> qsettings \<Rightarrow> exn + qsettings" where
  "toSettings p settings key Q =
     (let key' = (if key \<noteq> [] then key else defaultSettingsKey);
          s = (case settings of Some r \<Rightarrow> r | None \<Rightarrow> QSettings_default)
      in case json_dumps_PathEncoder (asDict p) of
           Inl e \<Rightarrow> Inl e
         | Inr t \<Rightarrow> Inr (Q(s := (Q s)(key' \<mapsto> t))))"

text \<open>
  \<^verbatim>\<open>setValue\<close> comes from the application's \<^verbatim>\<open>parameterPack\<close>, so it is an argument:
  given the object, a field name and a value it returns the object updated, or raises.
  The loop of \<^verbatim>\<open>fromSettings\<close> skips a member when \<^verbatim>\<open>setValue\<close> raises \<^verbatim>\<open>TypeError\<close>
  and lets any other exception through.
\<close>

type_synonym setter = "Parameter \<Rightarrow> string \<Rightarrow> pyval \<Rightarrow> exn + Parameter"

fun fromSettings_loop :: "setter \<Rightarrow> Parameter \<Rightarrow> (string \<times> pyval) list \<Rightarrow> exn + Parameter" where
  "fromSettings_loop setValue instance [] = Inr instance"
| "fromSettings_loop setValue instance (kv # rest) =
     (case setValue instance (fst kv) (snd kv) of
        Inl TypeError \<Rightarrow> fromSettings_loop setValue instance rest
      | Inl e \<Rightarrow> Inl e
      | Inr instance' \<Rightarrow> fromSettings_loop setValue instance' rest)"

definition fromSettings :: "setter \<Rightarrow> nat option \<Rightarrow> string \<Rightarrow> qsettings \<Rightarrow> exn + Parameter" where
  "fromSettings setValue settings key Q =
     (let key' = (if key \<noteq> [] then key else defaultSettingsKey);
          s = (case settings of Some r \<Rightarrow> r | None \<Rightarrow> QSettings_default);
          val = (case Q s key' of None \<Rightarrow> OtherText '''' | Some t \<Rightarrow> t)
      in case (if text_truthy val then json_loads decodePath val else Inr (PDict [])) of
           Inl e \<Rightarrow> Inl e
         | Inr (PDict val_dict) \<Rightarrow> fromSettings_loop setValue Parameter_default val_dict
         | Inr _ \<Rightarrow> Inl AttributeError)"

text \<open>
  A \<^verbatim>\<open>setValue\<close> for concrete runs, following the annotations of the dataclass: a value
  of the field's type that passes the field's validator is assigned, a value of another
  type raises \<^verbatim>\<open>TypeError\<close>, a value out of range and a name that is no field raise
  \<^verbatim>\<open>ValueError\<close>.
\<close>

definition annotated_setValue :: setter where
  "annotated_setValue q k v =
     (if k = ''folds'' then
        (case v of PStr s \<Rightarrow> Inr (q\<lparr>folds := s\<rparr>) | _ \<Rightarrow> Inl TypeError)
      else if k = ''device'' then
        (case v of
           PStr s \<Rightarrow>
             if s = ''cuda'' \<or> s = ''cpu'' \<or> s = ''mps'' then Inr (q\<lparr>device := s\<rparr>)
             else Inl ValueError
         | _ \<Rightarrow> Inl TypeError)
      else if k = ''stepSize'' then
        (case v of
           PFloat x \<Rightarrow> if 0 \<le> x \<and> x \<le> 1 then Inr (q\<lparr>stepSize := x\<rparr>) else Inl ValueError
         | _ \<Rightarrow> Inl TypeError)
      else if k = ''disableTta'' then
        (case v of PBool b \<Rightarrow> Inr (q\<lparr>disableTta := b\<rparr>) | _ \<Rightarrow> Inl TypeError)
      else if k = ''nProcessPreprocessing'' then
        (case v of
           PInt i \<Rightarrow>
             if 1 \<le> i \<and> i \<le> 999 then Inr (q\<lparr>nProcessPreprocessing := i\<rparr>)
             else Inl ValueError
         | _ \<Rightarrow> Inl TypeError)
      else if k = ''nProcessSegmentationExport'' then
        (case v of
           PInt i \<Rightarrow>
             if 1 \<le> i \<and> i \<le> 999 then Inr (q\<lparr>nProcessSegmentationExport := i\<rparr>)
             else Inl ValueError
         | _ \<Rightarrow> Inl TypeError)
      else if k = ''checkPointName'' then
        (case v of PStr s \<Rightarrow> Inr (q\<lparr>checkPointName := s\<rparr>) | _ \<Rightarrow> Inl TypeError)
      else if k = ''modelPath'' then
        (case v of PPath d \<Rightarrow> Inr (q\<lparr>modelPath := d\<rparr>) | _ \<Rightarrow> Inl TypeError)
      else Inl ValueError)"

section \<open>A model directory for concrete runs\<close>

text \<open>
  The directory \<^verbatim>\<open>m\<close> holds one dataset laid out as the tool expects, with fold 0 and
  its default checkpoint; the directory \<^verbatim>\<open>bad\<close> holds the same under a configuration
  folder whose name has no double underscore; nothing else exists. No GPU is available.
\<close>

definition example_labels :: jtext where
  "example_labels = JsonText (JObj [(''labels'', JObj [(''bone'', JInt 1), (''liver'', JInt 2)])])"

definition example_rglob :: "path \<Rightarrow> string \<Rightarrow> path list" where
  "example_rglob d pat =
     (if pat = ''dataset.json'' \<and> d = Path ''m''
      then [Path ''m/Dataset001/nnUNetTrainer__nnUNetPlans__3d_fullres/dataset.json'']
      else if pat = ''dataset.json'' \<and> d = Path ''bad''
      then [Path ''bad/Dataset001/3d_fullres/dataset.json'']
      else [])"

definition example_exists :: "path \<Rightarrow> bool" where
  "example_exists q =
     (q = Path ''m/Dataset001/nnUNetTrainer__nnUNetPlans__3d_fullres/fold_0'' \<or>
      q = Path ''m/Dataset001/nnUNetTrainer__nnUNetPlans__3d_fullres/fold_0/checkpoint_final.pth'' \<or>
      q = Path ''bad/Dataset001/3d_fullres/fold_0'' \<or>
      q = Path ''bad/Dataset001/3d_fullres/fold_0/checkpoint_final.pth'')"

definition example_read_text :: "path \<Rightarrow> jtext option" where
  "example_read_text q =
     (if q = Path ''m/Dataset001/nnUNetTrainer__nnUNetPlans__3d_fullres/dataset.json''
      then Some example_labels
      else if q = Path ''bad/Dataset001/3d_fullres/dataset.json''
      then Some (JsonText (JObj [(''name'', JStr ''Dataset001'')]))
      else None)"

definition example_format_other :: "pyval \<Rightarrow> string" where
  "example_format_other v = ''''"

definition example_env :: env where
  "example_env =
     \<lparr>rglob = example_rglob, exists = example_exists, read_text = example_read_text,
      cuda_is_available = False, format_other = example_format_other\<rparr>"

definition example_parameter :: Parameter where
  "example_parameter = Parameter_default\<lparr>modelPath := Path ''m''\<rparr>"

text \<open>
  The settings in which the default store holds one text under the default key and
  nothing else is stored.
\<close>

definition store_with :: "jtext \<Rightarrow> qsettings" where
  "store_with t s key =
     (if s = QSettings_default \<and> key = defaultSettingsKey then Some t else None)"

definition empty_settings :: qsettings where
  "empty_settings s key = None"

text \<open>
  What the loop of \<^verbatim>\<open>fromSettings\<close> leaves when no exception escapes: each member is
  assigned in turn, and a member that \<^verbatim>\<open>setValue\<close> rejects leaves the object as it was.
\<close>

definition assign_members :: "setter \<Rightarrow> (string \<times> pyval) list \<Rightarrow> Parameter \<Rightarrow> Parameter" where
  "assign_members setValue kvs q =
     fold (\<lambda>kv q. case setValue q (fst kv) (snd kv) of Inl e \<Rightarrow> q | Inr q' \<Rightarrow> q') kvs q"

text \<open>
  What holds of every path object, since \<^verbatim>\<open>Path\<close> builds it from a text: the root is
  empty, one slash or two, and no component is empty, a single dot, or contains a slash.
\<close>

definition wf_path :: "path \<Rightarrow> bool" where
  "wf_path p =
     ((path_root p = '''' \<or> path_root p = ''/'' \<or> path_root p = ''//'') \<and>
      (\<forall>c \<in> set (path_parts p). c \<noteq> '''' \<and> c \<noteq> ''.'' \<and> CHR ''/'' \<notin> set c))"

text \<open>
  \<^verbatim>\<open>setValue\<close> takes the values of the fields of \<open>p\<close>: on any object, assigning to a
  field the value \<open>p\<close> has there succeeds and updates that field only.
\<close>

definition accepts :: "setter \<Rightarrow> Parameter \<Rightarrow> bool" where
  "accepts setValue p =
     (\<forall>q. setValue q ''folds'' (PStr (folds p)) = Inr (q\<lparr>folds := folds p\<rparr>) \<and>
          setValue q ''device'' (PStr (device p)) = Inr (q\<lparr>device := device p\<rparr>) \<and>
          setValue q ''stepSize'' (PFloat (stepSize p)) = Inr (q\<lparr>stepSize := stepSize p\<rparr>) \<and>
          setValue q ''disableTta'' (PBool (disableTta p)) = Inr (q\<lparr>disableTta := disableTta p\<rparr>) \<and>
          setValue q ''nProcessPreprocessing'' (PInt (nProcessPreprocessing p)) =
            Inr (q\<lparr>nProcessPreprocessing := nProcessPreprocessing p\<rparr>) \<and>
          setValue q ''nProcessSegmentationExport'' (PInt (nProcessSegmentationExport p)) =
            Inr (q\<lparr>nProcessSegmentationExport := nProcessSegmentationExport p\<rparr>) \<and>
          setValue q ''checkPointName'' (PStr (checkPointName p)) =
            Inr (q\<lparr>checkPointName := checkPointName p\<rparr>) \<and>
          setValue q ''modelPath'' (PPath (modelPath p)) = Inr (q\<lparr>modelPath := modelPath p\<rparr>))"

section \<open>Properties\<close>

subsection \<open>Validation step by step\<close>

lemma traverse_total: "traverse (\<lambda>x. Inr (g x)) xs = Inr (map g xs)"
  by (induction xs) auto

lemma datasetPath_eq:
  "datasetPath E p = (case rglob E (modelPath p) ''dataset.json'' of [] \<Rightarrow> None | d # ds \<Rightarrow> Some d)"
  by (simp add: datasetPath_def path_truthy_def)

lemma getFoldPaths_eq:
  assumes "datasetPath E p = Some d" and "foldsAsList p = Inr fs"
  shows "getFoldPaths E p = Inr (map (\<lambda>f. (f, joinpath (parent d) (''fold_'' @ str_int f))) fs)"
  using assms by (simp add: getFoldPaths_def configurationFolder_def traverse_total)

lemma getMissingFolds_eq:
  assumes "datasetPath E p = Some d" and "foldsAsList p = Inr fs"
  shows "getMissingFolds E p =
    Inr (filter (\<lambda>f. \<not> exists E (joinpath (parent d) (''fold_'' @ str_int f))) fs)"
  using assms by (simp add: getMissingFolds_def getFoldPaths_eq filter_map comp_def)

lemma getFoldsWithInvalidWeights_eq:
  assumes "datasetPath E p = Some d" and "foldsAsList p = Inr fs"
  shows "getFoldsWithInvalidWeights E p =
    Inr (filter (\<lambda>f. \<not> exists E (joinpath (joinpath (parent d) (''fold_'' @ str_int f))
                                     (getCheckpointName p))) fs)"
  using assms by (simp add: getFoldsWithInvalidWeights_def getFoldPaths_eq filter_map comp_def)

lemma configurationNameParts_eq:
  assumes "datasetPath E p = Some d"
  shows "configurationNameParts E p = Inr (split (name (parent d)) ''__'')"
  using assms by (simp add: configurationNameParts_def configurationFolder_def)

lemma getFoldPaths_raises:
  assumes "foldsAsList p = Inl e"
  shows "getFoldPaths E p = Inl e"
  using assms by (simp add: getFoldPaths_def)

lemma isValid_cases:
  assumes "datasetPath E p = Some d" and "foldsAsList p = Inr fs"
  shows "isValid E p =
    (let missing = filter (\<lambda>f. \<not> exists E (joinpath (parent d) (''fold_'' @ str_int f))) fs;
         invalid = filter (\<lambda>f. \<not> exists E (joinpath (joinpath (parent d) (''fold_'' @ str_int f))
                                     (getCheckpointName p))) fs
     in if missing \<noteq> [] then Inr (False, msg_missing_folds missing)
        else if invalid \<noteq> [] then Inr (False, msg_invalid_weights p invalid)
        else if length (split (name (parent d)) ''__'') \<noteq> 3 then Inr (False, msg_invalid_folder)
        else Inr (True, ''''))"
  using assms
  by (simp add: isValid_def isDatasetPathValid_def getMissingFolds_eq
      getFoldsWithInvalidWeights_eq configurationNameParts_eq Let_def)

lemma isValid_no_dataset:
  assumes "datasetPath E p = None"
  shows "isValid E p = Inr (False, msg_dataset_missing p)"
  using assms by (simp add: isValid_def isDatasetPathValid_def)

lemma isValid_raises:
  assumes "datasetPath E p = Some d" and "foldsAsList p = Inl e"
  shows "isValid E p = Inl e"
  using assms by (simp add: isValid_def isDatasetPathValid_def getMissingFolds_def getFoldPaths_raises)

lemma isValid_True_D:
  assumes "isValid E p = Inr (True, r)"
  shows "r = '''' \<and> (\<exists>d fs. datasetPath E p = Some d \<and> foldsAsList p = Inr fs \<and>
     filter (\<lambda>f. \<not> exists E (joinpath (parent d) (''fold_'' @ str_int f))) fs = [] \<and>
     filter (\<lambda>f. \<not> exists E (joinpath (joinpath (parent d) (''fold_'' @ str_int f))
                                     (getCheckpointName p))) fs = [] \<and>
     length (split (name (parent d)) ''__'') = 3)"
proof (cases "datasetPath E p")
  case None
  with assms show ?thesis by (simp add: isValid_no_dataset)
next
  case (Some d)
  show ?thesis
  proof (cases "foldsAsList p")
    case (Inl e)
    with Some assms show ?thesis by (simp add: isValid_raises)
  next
    case (Inr fs)
    with Some assms show ?thesis
      by (simp add: isValid_cases Let_def split: if_splits)
  qed
qed

subsection \<open>The search for the dataset file\<close>

text \<open>
  Claim C10. The guard on \<^verbatim>\<open>self.modelPath\<close> in \<^verbatim>\<open>_datasetPath\<close> is true for every
  path, so the search always runs: the result is the first match of the recursive search
  for \<^verbatim>\<open>dataset.json\<close> under the model path, and it is \<^verbatim>\<open>None\<close> exactly when the search
  finds nothing. The default model path is the empty relative path, printed as a dot,
  that is the current working directory, and the search runs there too.
\<close>

theorem datasetPath_always_searches:
  "path_truthy (modelPath p) \<and>
   datasetPath E p =
     (case rglob E (modelPath p) ''dataset.json'' of [] \<Rightarrow> None | d # ds \<Rightarrow> Some d) \<and>
   (datasetPath E p = None) = (rglob E (modelPath p) ''dataset.json'' = []) \<and>
   modelPath Parameter_default = PosixPath '''' [] \<and>
   str_path (modelPath Parameter_default) = ''.'' \<and>
   datasetPath E Parameter_default =
     (case rglob E (PosixPath '''' []) ''dataset.json'' of [] \<Rightarrow> None | d # ds \<Rightarrow> Some d)"
proof -
  have default_path: "modelPath Parameter_default = PosixPath '''' []"
    by (simp add: Parameter_default_def Path_def path_root_of_def split_def)
  have "str_path (PosixPath '''' []) = ''.''"
    by (simp add: str_path_def)
  with default_path show ?thesis
    by (simp add: datasetPath_eq path_truthy_def split: list.splits)
qed

theorem datasetPath_always_searches_witness:
  "datasetPath example_env Parameter_default = None \<and>
   rglob example_env (PosixPath '''' []) ''dataset.json'' = [] \<and>
   datasetPath example_env example_parameter =
     Some (Path ''m/Dataset001/nnUNetTrainer__nnUNetPlans__3d_fullres/dataset.json'')"
proof -
  have a: "rglob example_env (PosixPath '''' []) ''dataset.json'' = []"
    by code_simp
  have b: "rglob example_env (modelPath example_parameter) ''dataset.json'' =
      [Path ''m/Dataset001/nnUNetTrainer__nnUNetPlans__3d_fullres/dataset.json'']"
    by (simp add: example_env_def example_rglob_def example_parameter_def)
  from a b datasetPath_always_searches [of Parameter_default example_env]
    datasetPath_always_searches [of example_parameter example_env]
  show ?thesis by simp
qed

subsection \<open>The order of the checks\<close>

text \<open>
  Claim C2. \<^verbatim>\<open>isValid\<close> checks in a fixed order and stops at the first check that fails:
  (1) no \<^verbatim>\<open>dataset.json\<close> under the model path gives the first reason; with the dataset
  file found and the requested folds read, (2) a fold whose folder \<^verbatim>\<open>fold_<i>\<close> is missing
  under the configuration folder gives the list of missing folds, (3) otherwise a fold
  whose checkpoint file (the checkpoint name, or \<^verbatim>\<open>checkpoint_final.pth\<close> when the name is
  empty) is missing in its fold folder gives the list of those folds, (4) otherwise a
  configuration folder name that does not split into three parts at the double
  underscore gives the folder naming reason, and otherwise the result is true with the
  empty reason. The result is true only if all four checks pass.
\<close>

theorem isValid_checks_in_order:
  fixes E :: env and p :: Parameter
  defines "ckpt \<equiv> (if checkPointName p = '''' then ''checkpoint_final.pth'' else checkPointName p)"
  shows
  "(datasetPath E p = None \<longrightarrow> isValid E p = Inr (False, msg_dataset_missing p)) \<and>
   (\<forall>d fs. datasetPath E p = Some d \<and> foldsAsList p = Inr fs \<longrightarrow>
      (let folder = (\<lambda>i. joinpath (parent d) (''fold_'' @ str_int i));
           missing = filter (\<lambda>i. \<not> exists E (folder i)) fs;
           invalid = filter (\<lambda>i. \<not> exists E (joinpath (folder i) ckpt)) fs;
           name_parts = split (name (parent d)) ''__''
       in isValid E p =
            (if missing \<noteq> [] then Inr (False, msg_missing_folds missing)
             else if invalid \<noteq> [] then Inr (False, msg_invalid_weights p invalid)
             else if length name_parts \<noteq> 3 then Inr (False, msg_invalid_folder)
             else Inr (True, '''')))) \<and>
   (\<forall>r. isValid E p = Inr (True, r) \<longrightarrow>
      r = '''' \<and>
      (\<exists>d fs. datasetPath E p = Some d \<and> foldsAsList p = Inr fs \<and>
         (\<forall>i \<in> set fs. exists E (joinpath (parent d) (''fold_'' @ str_int i)) \<and>
            exists E (joinpath (joinpath (parent d) (''fold_'' @ str_int i)) ckpt)) \<and>
         length (split (name (parent d)) ''__'') = 3))"
proof -
  have ck: "getCheckpointName p = ckpt"
    by (simp add: getCheckpointName_def ckpt_def)
  have first: "datasetPath E p = None \<longrightarrow> isValid E p = Inr (False, msg_dataset_missing p)"
    by (simp add: isValid_no_dataset)
  have second: "\<forall>d fs. datasetPath E p = Some d \<and> foldsAsList p = Inr fs \<longrightarrow>
      (let folder = (\<lambda>i. joinpath (parent d) (''fold_'' @ str_int i));
           missing = filter (\<lambda>i. \<not> exists E (folder i)) fs;
           invalid = filter (\<lambda>i. \<not> exists E (joinpath (folder i) ckpt)) fs;
           name_parts = split (name (parent d)) ''__''
       in isValid E p =
            (if missing \<noteq> [] then Inr (False, msg_missing_folds missing)
             else if invalid \<noteq> [] then Inr (False, msg_invalid_weights p invalid)
             else if length name_parts \<noteq> 3 then Inr (False, msg_invalid_folder)
             else Inr (True, '''')))"
    using ck by (simp add: isValid_cases Let_def)
  have third: "\<forall>r. isValid E p = Inr (True, r) \<longrightarrow>
      r = '''' \<and>
      (\<exists>d fs. datasetPath E p = Some d \<and> foldsAsList p = Inr fs \<and>
         (\<forall>i \<in> set fs. exists E (joinpath (parent d) (''fold_'' @ str_int i)) \<and>
            exists E (joinpath (joinpath (parent d) (''fold_'' @ str_int i)) ckpt)) \<and>
         length (split (name (parent d)) ''__'') = 3)"
  proof (intro allI impI)
    fix r assume "isValid E p = Inr (True, r)"
    from isValid_True_D [OF this] ck show "r = '''' \<and>
      (\<exists>d fs. datasetPath E p = Some d \<and> foldsAsList p = Inr fs \<and>
         (\<forall>i \<in> set fs. exists E (joinpath (parent d) (''fold_'' @ str_int i)) \<and>
            exists E (joinpath (joinpath (parent d) (''fold_'' @ str_int i)) ckpt)) \<and>
         length (split (name (parent d)) ''__'') = 3)"
      by (auto simp: filter_empty_conv)
  qed
  from first second third show ?thesis by blast
qed

theorem isValid_checks_in_order_witness:
  "isValid example_env Parameter_default = Inr (False, msg_dataset_missing Parameter_default) \<and>
   isValid example_env (example_parameter\<lparr>folds := ''0,1''\<rparr>) = Inr (False, msg_missing_folds [1]) \<and>
   isValid example_env example_parameter = Inr (True, '''') \<and>
   (\<exists>d fs. datasetPath example_env example_parameter = Some d \<and>
      foldsAsList example_parameter = Inr fs \<and>
      length (split (name (parent d)) ''__'') = 3)"
proof -
  let ?D = "Path ''m/Dataset001/nnUNetTrainer__nnUNetPlans__3d_fullres/dataset.json''"
  let ?q = "example_parameter\<lparr>folds := ''0,1''\<rparr>"
  have none: "datasetPath example_env Parameter_default = None"
    by code_simp
  have some: "datasetPath example_env ?q = Some ?D"
    by code_simp
  have fs: "foldsAsList ?q = Inr [0, 1]"
    by code_simp
  have missing: "filter (\<lambda>i. \<not> exists example_env (joinpath (parent ?D) (''fold_'' @ str_int i)))
      [0, 1] = [1]"
    by code_simp
  have valid: "isValid example_env example_parameter = Inr (True, '''')"
    by code_simp
  from isValid_checks_in_order [of example_env Parameter_default] none
  have a: "isValid example_env Parameter_default = Inr (False, msg_dataset_missing Parameter_default)"
    by blast
  from isValid_checks_in_order [of example_env ?q] some fs
  have "let folder = (\<lambda>i. joinpath (parent ?D) (''fold_'' @ str_int i));
           missing = filter (\<lambda>i. \<not> exists example_env (folder i)) [0, 1];
           invalid = filter (\<lambda>i. \<not> exists example_env (joinpath (folder i)
              (if checkPointName ?q = '''' then ''checkpoint_final.pth'' else checkPointName ?q))) [0, 1];
           name_parts = split (name (parent ?D)) ''__''
       in isValid example_env ?q =
            (if missing \<noteq> [] then Inr (False, msg_missing_folds missing)
             else if invalid \<noteq> [] then Inr (False, msg_invalid_weights ?q invalid)
             else if length name_parts \<noteq> 3 then Inr (False, msg_invalid_folder)
             else Inr (True, ''''))"
    by blast
  with missing have b: "isValid example_env ?q = Inr (False, msg_missing_folds [1])"
    by (simp add: Let_def)
  from isValid_checks_in_order [of example_env example_parameter] valid
  have c: "\<exists>d fs. datasetPath example_env example_parameter = Some d \<and>
      foldsAsList example_parameter = Inr fs \<and>
      length (split (name (parent d)) ''__'') = 3"
    by blast
  from a b valid c show ?thesis by blast
qed

lemma asArgList_invalid:
  assumes "isValid E p = Inr (False, reason)"
  shows "asArgList E p inDir outDir = Inl (RuntimeError (''Invalid nnUNet configuration. '' @ reason))"
  using assms by (simp add: asArgList_def)

lemma asArgList_Inr_D:
  assumes "asArgList E p inDir outDir = Inr args"
  shows "isValid E p = Inr (True, '''')"
proof (cases "isValid E p")
  case (Inl e)
  with assms show ?thesis by (simp add: asArgList_def)
next
  case (Inr okr)
  obtain ok r where okr: "okr = (ok, r)" by (cases okr)
  with Inr assms have "ok" by (auto simp: asArgList_def split: if_splits)
  with Inr okr have v: "isValid E p = Inr (True, r)" by simp
  from isValid_True_D [OF v] v show ?thesis by simp
qed

subsection \<open>No argument list from an invalid configuration\<close>

text \<open>
  Claim C1. Whenever \<^verbatim>\<open>isValid\<close> returns false with a reason, \<^verbatim>\<open>asArgList\<close> raises the
  one \<^verbatim>\<open>RuntimeError\<close> carrying that reason, and it returns an argument list only when
  \<^verbatim>\<open>isValid\<close> returns true. This covers each way validity fails: a missing dataset
  file, a missing fold folder or checkpoint file, and a configuration folder name that
  does not split into three parts.
\<close>

theorem asArgList_refuses_invalid:
  "(\<forall>reason. isValid E p = Inr (False, reason) \<longrightarrow>
      asArgList E p inDir outDir =
        Inl (RuntimeError (''Invalid nnUNet configuration. '' @ reason))) \<and>
   (\<forall>args. asArgList E p inDir outDir = Inr args \<longrightarrow> isValid E p = Inr (True, '''')) \<and>
   (datasetPath E p = None \<longrightarrow>
      asArgList E p inDir outDir =
        Inl (RuntimeError (''Invalid nnUNet configuration. '' @ msg_dataset_missing p))) \<and>
   (\<forall>d fs. datasetPath E p = Some d \<and> foldsAsList p = Inr fs \<and>
        (\<exists>i \<in> set fs. \<not> exists E (joinpath (parent d) (''fold_'' @ str_int i)) \<or>
           \<not> exists E (joinpath (joinpath (parent d) (''fold_'' @ str_int i))
                 (getCheckpointName p))) \<longrightarrow>
      (\<exists>reason. asArgList E p inDir outDir =
         Inl (RuntimeError (''Invalid nnUNet configuration. '' @ reason)))) \<and>
   (\<forall>d fs. datasetPath E p = Some d \<and> foldsAsList p = Inr fs \<and>
        length (split (name (parent d)) ''__'') \<noteq> 3 \<longrightarrow>
      (\<exists>reason. asArgList E p inDir outDir =
         Inl (RuntimeError (''Invalid nnUNet configuration. '' @ reason))))"
proof -
  have way1: "datasetPath E p = None \<longrightarrow>
      asArgList E p inDir outDir =
        Inl (RuntimeError (''Invalid nnUNet configuration. '' @ msg_dataset_missing p))"
    by (simp add: isValid_no_dataset asArgList_invalid)
  have false_cases: "\<exists>reason. isValid E p = Inr (False, reason)"
    if d: "datasetPath E p = Some d" and fs: "foldsAsList p = Inr fs"
      and bad: "(\<exists>i \<in> set fs. \<not> exists E (joinpath (parent d) (''fold_'' @ str_int i)) \<or>
           \<not> exists E (joinpath (joinpath (parent d) (''fold_'' @ str_int i))
                 (getCheckpointName p))) \<or> length (split (name (parent d)) ''__'') \<noteq> 3"
    for d fs
    using bad by (auto simp: isValid_cases [OF d fs] Let_def filter_empty_conv)
  have way23: "\<forall>d fs. datasetPath E p = Some d \<and> foldsAsList p = Inr fs \<and>
        (\<exists>i \<in> set fs. \<not> exists E (joinpath (parent d) (''fold_'' @ str_int i)) \<or>
           \<not> exists E (joinpath (joinpath (parent d) (''fold_'' @ str_int i))
                 (getCheckpointName p))) \<longrightarrow>
      (\<exists>reason. asArgList E p inDir outDir =
         Inl (RuntimeError (''Invalid nnUNet configuration. '' @ reason)))"
    using false_cases asArgList_invalid by blast
  have way4: "\<forall>d fs. datasetPath E p = Some d \<and> foldsAsList p = Inr fs \<and>
        length (split (name (parent d)) ''__'') \<noteq> 3 \<longrightarrow>
      (\<exists>reason. asArgList E p inDir outDir =
         Inl (RuntimeError (''Invalid nnUNet configuration. '' @ reason)))"
    using false_cases asArgList_invalid by blast
  from way1 way23 way4 show ?thesis
    using asArgList_invalid asArgList_Inr_D by blast
qed

theorem asArgList_refuses_invalid_witness:
  "asArgList example_env Parameter_default (Path ''in'') (Path ''out'') =
     Inl (RuntimeError (''Invalid nnUNet configuration. '' @ msg_dataset_missing Parameter_default)) \<and>
   asArgList example_env (example_parameter\<lparr>folds := ''1''\<rparr>) (Path ''in'') (Path ''out'') =
     Inl (RuntimeError (''Invalid nnUNet configuration. '' @ msg_missing_folds [1])) \<and>
   asArgList example_env (example_parameter\<lparr>checkPointName := ''best.pth''\<rparr>) (Path ''in'') (Path ''out'') =
     Inl (RuntimeError (''Invalid nnUNet configuration. '' @
        msg_invalid_weights (example_parameter\<lparr>checkPointName := ''best.pth''\<rparr>) [0])) \<and>
   asArgList example_env (example_parameter\<lparr>modelPath := Path ''bad''\<rparr>) (Path ''in'') (Path ''out'') =
     Inl (RuntimeError (''Invalid nnUNet configuration. '' @ msg_invalid_folder)) \<and>
   isValid example_env example_parameter = Inr (True, '''')"
proof -
  have v1: "isValid example_env Parameter_default = Inr (False, msg_dataset_missing Parameter_default)"
    by code_simp
  have v2: "isValid example_env (example_parameter\<lparr>folds := ''1''\<rparr>) =
      Inr (False, msg_missing_folds [1])"
    by code_simp
  have v3: "isValid example_env (example_parameter\<lparr>checkPointName := ''best.pth''\<rparr>) =
      Inr (False, msg_invalid_weights (example_parameter\<lparr>checkPointName := ''best.pth''\<rparr>) [0])"
    by code_simp
  have v4: "isValid example_env (example_parameter\<lparr>modelPath := Path ''bad''\<rparr>) =
      Inr (False, msg_invalid_folder)"
    by code_simp
  have "\<not> isl (asArgList example_env example_parameter (Path ''in'') (Path ''out''))"
    by code_simp
  then have ok: "\<exists>args. asArgList example_env example_parameter (Path ''in'') (Path ''out'') = Inr args"
    by (cases "asArgList example_env example_parameter (Path ''in'') (Path ''out'')") auto
  from asArgList_refuses_invalid [of example_env Parameter_default "Path ''in''" "Path ''out''"] v1
  have a: "asArgList example_env Parameter_default (Path ''in'') (Path ''out'') =
     Inl (RuntimeError (''Invalid nnUNet configuration. '' @ msg_dataset_missing Parameter_default))"
    by blast
  from asArgList_refuses_invalid [of example_env "example_parameter\<lparr>folds := ''1''\<rparr>"
      "Path ''in''" "Path ''out''"] v2
  have b: "asArgList example_env (example_parameter\<lparr>folds := ''1''\<rparr>) (Path ''in'') (Path ''out'') =
     Inl (RuntimeError (''Invalid nnUNet configuration. '' @ msg_missing_folds [1]))"
    by blast
  from asArgList_refuses_invalid [of example_env "example_parameter\<lparr>checkPointName := ''best.pth''\<rparr>"
      "Path ''in''" "Path ''out''"] v3
  have c: "asArgList example_env (example_parameter\<lparr>checkPointName := ''best.pth''\<rparr>) (Path ''in'') (Path ''out'') =
     Inl (RuntimeError (''Invalid nnUNet configuration. '' @
        msg_invalid_weights (example_parameter\<lparr>checkPointName := ''best.pth''\<rparr>) [0]))"
    by blast
  from asArgList_refuses_invalid [of example_env "example_parameter\<lparr>modelPath := Path ''bad''\<rparr>"
      "Path ''in''" "Path ''out''"] v4
  have d: "asArgList example_env (example_parameter\<lparr>modelPath := Path ''bad''\<rparr>) (Path ''in'') (Path ''out'') =
     Inl (RuntimeError (''Invalid nnUNet configuration. '' @ msg_invalid_folder))"
    by blast
  from asArgList_refuses_invalid [of example_env example_parameter "Path ''in''" "Path ''out''"] ok
  have e: "isValid example_env example_parameter = Inr (True, '''')"
    by blast
  from a b c d e show ?thesis by blast
qed

subsection \<open>Fold texts that are not integers\<close>

text \<open>
  Claim C8 says that \<^verbatim>\<open>isValid\<close> never raises. With the dataset file found, a folds text
  that is no comma-separated list of integers makes \<^verbatim>\<open>int\<close> raise \<^verbatim>\<open>ValueError\<close> inside
  \<^verbatim>\<open>_foldsAsList\<close>, and the exception leaves \<^verbatim>\<open>isValid\<close>: for the texts \<^verbatim>\<open>a\<close>, \<^verbatim>\<open>0,\<close>
  and a single space.
\<close>

theorem isValid_raises_on_malformed_folds:
  "isValid example_env (example_parameter\<lparr>folds := ''a''\<rparr>) = Inl ValueError \<and>
   isValid example_env (example_parameter\<lparr>folds := ''0,''\<rparr>) = Inl ValueError \<and>
   isValid example_env (example_parameter\<lparr>folds := '' ''\<rparr>) = Inl ValueError"
  by code_simp

subsection \<open>The device argument\<close>

lemma datasetPath_cuda [simp]:
  "datasetPath (E\<lparr>cuda_is_available := b\<rparr>) p = datasetPath E p"
  by (simp add: datasetPath_def)

lemma configurationFolder_cuda [simp]:
  "configurationFolder (E\<lparr>cuda_is_available := b\<rparr>) p = configurationFolder E p"
  by (simp add: configurationFolder_def)

lemma getFoldPaths_cuda [simp]:
  "getFoldPaths (E\<lparr>cuda_is_available := b\<rparr>) p = getFoldPaths E p"
  by (simp add: getFoldPaths_def cong: sum.case_cong)

lemma isValid_cuda_independent:
  "isValid (E\<lparr>cuda_is_available := b\<rparr>) p = isValid E p"
proof -
  have m: "getMissingFolds (E\<lparr>cuda_is_available := b\<rparr>) p = getMissingFolds E p"
    by (simp add: getMissingFolds_def cong: sum.case_cong)
  have w: "getFoldsWithInvalidWeights (E\<lparr>cuda_is_available := b\<rparr>) p =
      getFoldsWithInvalidWeights E p"
    by (simp add: getFoldsWithInvalidWeights_def cong: sum.case_cong)
  have n: "configurationNameParts (E\<lparr>cuda_is_available := b\<rparr>) p =
      configurationNameParts E p"
    by (simp add: configurationNameParts_def)
  show ?thesis
    unfolding isValid_def isDatasetPathValid_def m w n datasetPath_cuda ..
qed

lemma isValid_device_independent:
  "isValid E (p\<lparr>device := dv\<rparr>) = isValid E p"
proof -
  have d: "datasetPath E (p\<lparr>device := dv\<rparr>) = datasetPath E p"
    by (simp add: datasetPath_def)
  have c: "configurationFolder E (p\<lparr>device := dv\<rparr>) = configurationFolder E p"
    by (simp add: configurationFolder_def d)
  have f: "getFoldPaths E (p\<lparr>device := dv\<rparr>) = getFoldPaths E p"
    by (simp add: getFoldPaths_def foldsAsList_def c cong: sum.case_cong)
  have m: "getMissingFolds E (p\<lparr>device := dv\<rparr>) = getMissingFolds E p"
    by (simp add: getMissingFolds_def f)
  have w: "getFoldsWithInvalidWeights E (p\<lparr>device := dv\<rparr>) =
      getFoldsWithInvalidWeights E p"
    by (simp add: getFoldsWithInvalidWeights_def f getCheckpointName_def cong: sum.case_cong)
  have n: "configurationNameParts E (p\<lparr>device := dv\<rparr>) = configurationNameParts E p"
    by (simp add: configurationNameParts_def c)
  have g: "msg_dataset_missing (p\<lparr>device := dv\<rparr>) = msg_dataset_missing p"
    by (simp add: msg_dataset_missing_def)
  have h: "msg_invalid_weights (p\<lparr>device := dv\<rparr>) = msg_invalid_weights p"
    by (simp add: msg_invalid_weights_def fun_eq_iff)
  show ?thesis
    unfolding isValid_def isDatasetPathValid_def d m w n g h ..
qed

lemma asArgList_device_position:
  assumes "asArgList E p inDir outDir = Inr args"
  shows "\<exists>fs. foldsAsList p = Inr fs \<and>
     args ! (19 + length fs) = PStr ''-device'' \<and>
     args ! (20 + length fs) = PStr (if cuda_is_available E then device p else ''cpu'')"
proof -
  define post where "post =
       [PStr ''-npp'', PInt (nProcessPreprocessing p),
        PStr ''-nps'', PInt (nProcessSegmentationExport p),
        PStr ''-step_size'', PFloat (stepSize p),
        PStr ''-device'', PStr (if cuda_is_available E then device p else ''cpu''),
        PStr ''-chk'', PStr (getCheckpointName p)] @
       (if disableTta p then [PStr ''--disable_tta''] else [])"
  from assms obtain dn tr pl cf fs where fs: "foldsAsList p = Inr fs"
    and args: "args =
       ([PStr ''-i'', PStr (as_posix inDir), PStr ''-o'', PStr (as_posix outDir),
        PStr ''-d'', PStr dn, PStr ''-tr'', PStr tr, PStr ''-p'', PStr pl,
        PStr ''-c'', PStr cf, PStr ''-f''] @ map (\<lambda>f. PStr (str_int f)) fs) @ post"
    unfolding post_def
    by (auto simp: asArgList_def Let_def split: sum.splits if_splits prod.splits)
  have at: "args ! (13 + length fs + k) = post ! k" for k
    unfolding args by (simp add: nth_append)
  have "args ! (13 + length fs + 6) = PStr ''-device''"
    unfolding at by (simp add: post_def)
  moreover have "args ! (13 + length fs + 7) =
      PStr (if cuda_is_available E then device p else ''cpu'')"
    unfolding at by (simp add: post_def)
  ultimately show ?thesis using fs by (simp add: add.commute add.left_commute)
qed

text \<open>
  Claim C5. In the list \<^verbatim>\<open>asArgList\<close> returns, the flag \<^verbatim>\<open>-device\<close> stands after the
  folds, at position 19 plus the number of folds, and the value after it is the
  configured device when \<^verbatim>\<open>torch.cuda.is_available()\<close> holds, the test the source makes
  for GPU acceleration, and \<^verbatim>\<open>cpu\<close> otherwise, whatever device is configured. Validity
  depends neither on that test nor on the configured device.
\<close>

theorem asArgList_device:
  "(\<forall>args. asArgList E p inDir outDir = Inr args \<longrightarrow>
      (\<exists>fs. foldsAsList p = Inr fs \<and>
         args ! (19 + length fs) = PStr ''-device'' \<and>
         args ! (20 + length fs) = PStr (if cuda_is_available E then device p else ''cpu''))) \<and>
   isValid (E\<lparr>cuda_is_available := b\<rparr>) p = isValid E p \<and>
   isValid E (p\<lparr>device := dv\<rparr>) = isValid E p"
  using asArgList_device_position isValid_cuda_independent isValid_device_independent
  by blast

theorem asArgList_device_witness:
  "(\<exists>args fs. asArgList example_env (example_parameter\<lparr>device := ''mps''\<rparr>) (Path ''in'') (Path ''out'') = Inr args \<and>
      foldsAsList (example_parameter\<lparr>device := ''mps''\<rparr>) = Inr fs \<and>
      args ! (19 + length fs) = PStr ''-device'' \<and> args ! (20 + length fs) = PStr ''cpu'') \<and>
   (\<exists>args fs. asArgList (example_env\<lparr>cuda_is_available := True\<rparr>)
        (example_parameter\<lparr>device := ''mps''\<rparr>) (Path ''in'') (Path ''out'') = Inr args \<and>
      foldsAsList (example_parameter\<lparr>device := ''mps''\<rparr>) = Inr fs \<and>
      args ! (19 + length fs) = PStr ''-device'' \<and> args ! (20 + length fs) = PStr ''mps'')"
proof -
  let ?p = "example_parameter\<lparr>device := ''mps''\<rparr>"
  let ?G = "example_env\<lparr>cuda_is_available := True\<rparr>"
  have "\<not> isl (asArgList example_env ?p (Path ''in'') (Path ''out''))"
    by code_simp
  then obtain args where a: "asArgList example_env ?p (Path ''in'') (Path ''out'') = Inr args"
    by (cases "asArgList example_env ?p (Path ''in'') (Path ''out'')") auto
  have "\<not> isl (asArgList ?G ?p (Path ''in'') (Path ''out''))"
    by code_simp
  then obtain args' where a': "asArgList ?G ?p (Path ''in'') (Path ''out'') = Inr args'"
    by (cases "asArgList ?G ?p (Path ''in'') (Path ''out'')") auto
  have c: "\<not> cuda_is_available example_env" "cuda_is_available ?G" "device ?p = ''mps''"
    by (simp_all add: example_env_def)
  from asArgList_device [of example_env ?p "Path ''in''" "Path ''out''"] a c
  have one: "\<exists>fs. foldsAsList ?p = Inr fs \<and>
      args ! (19 + length fs) = PStr ''-device'' \<and> args ! (20 + length fs) = PStr ''cpu''"
    by simp
  from asArgList_device [of ?G ?p "Path ''in''" "Path ''out''"] a' c
  have two: "\<exists>fs. foldsAsList ?p = Inr fs \<and>
      args' ! (19 + length fs) = PStr ''-device'' \<and> args' ! (20 + length fs) = PStr ''mps''"
    by simp
  from a a' one two show ?thesis by blast
qed

subsection \<open>Reading the labels of the dataset file\<close>

lemma update_fresh: "k \<notin> fst ` set al \<Longrightarrow> AList.update k v al = al @ [(k, v)]"
  by (induction al) auto

lemma fold_update_distinct:
  "distinct (map fst (acc @ kvs)) \<Longrightarrow>
   fold (\<lambda>kv d. AList.update (fst kv) (snd kv) d) kvs acc = acc @ kvs"
proof (induction kvs arbitrary: acc)
  case Nil
  then show ?case by simp
next
  case (Cons kv kvs)
  from Cons.prems have fresh: "fst kv \<notin> fst ` set acc" by auto
  from Cons.prems have "distinct (map fst ((acc @ [kv]) @ kvs))" by simp
  from Cons.IH [OF this] fresh show ?case
    by (simp add: update_fresh)
qed

lemma dict_of_pairs_distinct: "distinct (map fst kvs) \<Longrightarrow> dict_of_pairs kvs = kvs"
  using fold_update_distinct [of "[]" kvs] by (simp add: dict_of_pairs_def)

lemma fold_update_keys:
  "fst ` set (fold (\<lambda>kv d. AList.update (fst kv) (snd kv) d) kvs acc) =
   fst ` set acc \<union> fst ` set kvs"
  by (induction kvs arbitrary: acc) (auto simp: dom_update)

lemma dict_of_pairs_keys: "fst ` set (dict_of_pairs kvs) = fst ` set kvs"
  by (simp add: dict_of_pairs_def fold_update_keys)

lemma traverse_pairs:
  assumes "traverse (\<lambda>kj. case g (snd kj) of Inl e \<Rightarrow> Inl e | Inr v \<Rightarrow> Inr (fst kj, v)) xs = Inr ys"
  shows "map fst ys = map fst xs \<and> list_all2 (\<lambda>x y. g (snd x) = Inr (snd y)) xs ys"
  using assms
  by (induction xs arbitrary: ys) (auto split: sum.splits)

lemma traverse_all_Inr:
  assumes "\<And>x. x \<in> set xs \<Longrightarrow> \<exists>y. f x = Inr y"
  shows "\<exists>ys. traverse f xs = Inr ys"
  using assms
proof (induction xs)
  case Nil
  then show ?case by simp
next
  case (Cons x xs)
  then obtain y ys where "f x = Inr y" "traverse f xs = Inr ys"
    by (meson list.set_intros)
  then show ?case by simp
qed

lemma json_decode_no_hook_total: "\<exists>v. json_decode no_hook j = Inr v"
proof (induction no_hook j rule: json_decode.induct)
  case (6 js)
  from traverse_all_Inr [of js "json_decode no_hook"] 6
  obtain vs where "traverse (json_decode no_hook) js = Inr vs" by blast
  then show ?case by simp
next
  case (7 kjs)
  let ?f = "\<lambda>kj. case json_decode no_hook (snd kj) of Inl e \<Rightarrow> Inl e | Inr v \<Rightarrow> Inr (fst kj, v)"
  have "\<exists>y. ?f kj = Inr y" if "kj \<in> set kjs" for kj
    using 7 [OF that] by auto
  with traverse_all_Inr [of kjs ?f]
  obtain kvs where "traverse ?f kjs = Inr kvs"
    by blast
  then show ?case by (simp add: no_hook_def)
qed simp_all

lemma json_decode_no_hook_object:
  "\<exists>kvs. json_decode no_hook (JObj members) = Inr (PDict (dict_of_pairs kvs)) \<and>
     map fst kvs = map fst members \<and>
     list_all2 (\<lambda>x y. json_decode no_hook (snd x) = Inr (snd y)) members kvs"
proof -
  let ?f = "\<lambda>kj. case json_decode no_hook (snd kj) of Inl e \<Rightarrow> Inl e | Inr v \<Rightarrow> Inr (fst kj, v)"
  have "\<exists>y. ?f kj = Inr y" for kj :: "string \<times> json"
    using json_decode_no_hook_total [of "snd kj"] by auto
  with traverse_all_Inr [of members ?f]
  obtain kvs where t: "traverse ?f members = Inr kvs"
    by blast
  from t have "json_decode no_hook (JObj members) = no_hook (dict_of_pairs kvs)"
    by simp
  then have "json_decode no_hook (JObj members) = Inr (PDict (dict_of_pairs kvs))"
    by (simp only: no_hook_def)
  with traverse_pairs [OF t] show ?thesis
    by blast
qed

lemma json_decode_int_members:
  "distinct (map fst ids) \<Longrightarrow>
   json_decode no_hook (JObj (map (\<lambda>ki. (fst ki, JInt (snd ki))) ids)) =
     Inr (PDict (map (\<lambda>ki. (fst ki, PInt (snd ki))) ids))"
proof -
  assume d: "distinct (map fst ids)"
  have t: "traverse (\<lambda>kj. case json_decode no_hook (snd kj) of
      Inl e \<Rightarrow> Inl e | Inr v \<Rightarrow> Inr (fst kj, v)) (map (\<lambda>ki. (fst ki, JInt (snd ki))) ids) =
      Inr (map (\<lambda>ki. (fst ki, PInt (snd ki))) ids)"
    by (induction ids) auto
  from d have "distinct (map fst (map (\<lambda>ki. (fst ki, PInt (snd ki))) ids))"
    by (simp add: comp_def)
  from dict_of_pairs_distinct [OF this] t show ?thesis
    by (simp add: no_hook_def)
qed

lemma read_no_dataset:
  "datasetPath E p = None \<Longrightarrow> readSegmentIdsAndLabelsFromDatasetFile E p = Inr None"
  by (simp add: readSegmentIdsAndLabelsFromDatasetFile_def isDatasetPathValid_def)

lemma read_decoded:
  assumes "datasetPath E p = Some d" and "read_text E d = Some t"
    and "json_loads no_hook t = Inr (PDict dataset_dict)"
  shows "readSegmentIdsAndLabelsFromDatasetFile E p =
    (case map_of dataset_dict ''labels'' of
       Some (PDict labels) \<Rightarrow>
         Inr (Some (map (\<lambda>kv. (''Segment_'' @ py_str E (snd kv), fst kv)) labels))
     | _ \<Rightarrow> Inl AttributeError)"
  using assms
  by (simp add: readSegmentIdsAndLabelsFromDatasetFile_def isDatasetPathValid_def
      split: option.splits pyval.splits)

lemma read_Some_D:
  assumes "readSegmentIdsAndLabelsFromDatasetFile E p = Inr (Some r)"
  shows "\<exists>d t dataset_dict labels. datasetPath E p = Some d \<and> read_text E d = Some t \<and>
     json_loads no_hook t = Inr (PDict dataset_dict) \<and>
     map_of dataset_dict ''labels'' = Some (PDict labels) \<and>
     r = map (\<lambda>kv. (''Segment_'' @ py_str E (snd kv), fst kv)) labels"
  using assms
  by (auto simp: readSegmentIdsAndLabelsFromDatasetFile_def isDatasetPathValid_def
      split: option.splits pyval.splits sum.splits if_splits)

lemma map_of_list_all2:
  assumes "list_all2 (\<lambda>x y. g (snd x) = Inr (snd y)) xs ys" and "map fst ys = map fst xs"
    and "map_of xs k = Some j"
  shows "\<exists>v. g j = Inr v \<and> map_of ys k = Some v"
  using assms
proof (induction xs ys rule: list_all2_induct)
  case Nil
  then show ?case by simp
next
  case (Cons x xs y ys)
  then show ?case by (cases x; cases y) (auto split: if_splits)
qed

text \<open>
  Claim C4. \<^verbatim>\<open>readSegmentIdsAndLabelsFromDatasetFile\<close> returns \<^verbatim>\<open>None\<close> when no
  \<^verbatim>\<open>dataset.json\<close> is found. Otherwise, when the \<^verbatim>\<open>labels\<close> member of the file maps label
  names to integers, it returns the pair of \<^verbatim>\<open>Segment_<id>\<close> and the label name for each
  entry, in the order of the mapping; this is stated for the \<^verbatim>\<open>dict\<close> that \<^verbatim>\<open>json.loads\<close>
  builds and for the members of the file itself, where that order is the order in the
  file. The example of the specification is evaluated after the theorem.
\<close>

theorem readSegmentIdsAndLabels_pairs:
  "(datasetPath E p = None \<longrightarrow> readSegmentIdsAndLabelsFromDatasetFile E p = Inr None) \<and>
   (\<forall>d t dataset_dict ids.
      datasetPath E p = Some d \<and> read_text E d = Some t \<and>
      json_loads no_hook t = Inr (PDict dataset_dict) \<and>
      map_of dataset_dict ''labels'' = Some (PDict (map (\<lambda>ki. (fst ki, PInt (snd ki))) ids)) \<longrightarrow>
      readSegmentIdsAndLabelsFromDatasetFile E p =
        Inr (Some (map (\<lambda>ki. (''Segment_'' @ str_int (snd ki), fst ki)) ids))) \<and>
   (\<forall>d members ids.
      datasetPath E p = Some d \<and> read_text E d = Some (JsonText (JObj members)) \<and>
      distinct (map fst members) \<and> distinct (map fst ids) \<and>
      map_of members ''labels'' = Some (JObj (map (\<lambda>ki. (fst ki, JInt (snd ki))) ids)) \<longrightarrow>
      readSegmentIdsAndLabelsFromDatasetFile E p =
        Inr (Some (map (\<lambda>ki. (''Segment_'' @ str_int (snd ki), fst ki)) ids)))"
proof -
  have decoded: "readSegmentIdsAndLabelsFromDatasetFile E p =
        Inr (Some (map (\<lambda>ki. (''Segment_'' @ str_int (snd ki), fst ki)) ids))"
    if "datasetPath E p = Some d" and "read_text E d = Some t"
      and "json_loads no_hook t = Inr (PDict dataset_dict)"
      and "map_of dataset_dict ''labels'' = Some (PDict (map (\<lambda>ki. (fst ki, PInt (snd ki))) ids))"
    for d t dataset_dict ids
    using that by (simp add: read_decoded py_str_def comp_def)
  have from_file: "readSegmentIdsAndLabelsFromDatasetFile E p =
        Inr (Some (map (\<lambda>ki. (''Segment_'' @ str_int (snd ki), fst ki)) ids))"
    if d: "datasetPath E p = Some d" and t: "read_text E d = Some (JsonText (JObj members))"
      and dm: "distinct (map fst members)" and di: "distinct (map fst ids)"
      and l: "map_of members ''labels'' = Some (JObj (map (\<lambda>ki. (fst ki, JInt (snd ki))) ids))"
    for d members ids
  proof -
    from json_decode_no_hook_object [of members]
    obtain kvs where dec: "json_decode no_hook (JObj members) = Inr (PDict (dict_of_pairs kvs))"
      and keys: "map fst kvs = map fst members"
      and vals: "list_all2 (\<lambda>x y. json_decode no_hook (snd x) = Inr (snd y)) members kvs"
      by blast
    from keys dm have "dict_of_pairs kvs = kvs"
      by (simp add: dict_of_pairs_distinct)
    with dec have loads: "json_loads no_hook (JsonText (JObj members)) = Inr (PDict kvs)"
      by (simp add: json_loads_def)
    from map_of_list_all2 [OF vals keys l] json_decode_int_members [OF di]
    have "map_of kvs ''labels'' = Some (PDict (map (\<lambda>ki. (fst ki, PInt (snd ki))) ids))"
      by auto
    from decoded [OF d t loads this] show ?thesis .
  qed
  have no_file: "datasetPath E p = None \<longrightarrow>
      readSegmentIdsAndLabelsFromDatasetFile E p = Inr None"
    by (simp add: read_no_dataset)
  from no_file decoded from_file show ?thesis
    by (intro conjI allI impI) (blast+)
qed

theorem readSegmentIdsAndLabels_pairs_witness:
  "readSegmentIdsAndLabelsFromDatasetFile example_env Parameter_default = Inr None \<and>
   read_text example_env (Path ''m/Dataset001/nnUNetTrainer__nnUNetPlans__3d_fullres/dataset.json'') =
     Some (JsonText (JObj [(''labels'', JObj [(''bone'', JInt 1), (''liver'', JInt 2)])])) \<and>
   readSegmentIdsAndLabelsFromDatasetFile example_env example_parameter =
     Inr (Some [(''Segment_1'', ''bone''), (''Segment_2'', ''liver'')])"
proof -
  let ?D = "Path ''m/Dataset001/nnUNetTrainer__nnUNetPlans__3d_fullres/dataset.json''"
  have none: "datasetPath example_env Parameter_default = None"
    by code_simp
  have some: "datasetPath example_env example_parameter = Some ?D"
    by code_simp
  have content: "read_text example_env ?D =
      Some (JsonText (JObj [(''labels'', JObj (map (\<lambda>ki. (fst ki, JInt (snd ki)))
        [(''bone'', 1), (''liver'', 2)]))]))"
    by (simp add: example_env_def example_read_text_def example_labels_def)
  have s1: "str_int 1 = ''1''" and s2: "str_int 2 = ''2''"
    by code_simp+
  from readSegmentIdsAndLabels_pairs [of example_env Parameter_default] none
  have a: "readSegmentIdsAndLabelsFromDatasetFile example_env Parameter_default = Inr None"
    by blast
  have "readSegmentIdsAndLabelsFromDatasetFile example_env example_parameter =
      Inr (Some (map (\<lambda>ki. (''Segment_'' @ str_int (snd ki), fst ki))
        [(''bone'', 1), (''liver'', 2)]))"
    using readSegmentIdsAndLabels_pairs [of example_env example_parameter] some content
    by (elim conjE allE [where x = "?D"]
        allE [where x = "[(''labels'', JObj (map (\<lambda>ki. (fst ki, JInt (snd ki)))
          [(''bone'', 1), (''liver'', 2)]))]"]
        allE [where x = "[(''bone'', 1), (''liver'', 2)]"]) simp
  with s1 s2 have b: "readSegmentIdsAndLabelsFromDatasetFile example_env example_parameter =
     Inr (Some [(''Segment_1'', ''bone''), (''Segment_2'', ''liver'')])"
    by simp
  from content have c: "read_text example_env ?D =
     Some (JsonText (JObj [(''labels'', JObj [(''bone'', JInt 1), (''liver'', JInt 2)])]))"
    by simp
  from a b c show ?thesis by blast
qed

text \<open>
  Claim C9. When the dataset file is found and its JSON object has no member
  \<^verbatim>\<open>labels\<close>, \<^verbatim>\<open>dataset_dict.get\<close> gives \<^verbatim>\<open>None\<close> and the call of \<^verbatim>\<open>items\<close> on it raises
  \<^verbatim>\<open>AttributeError\<close>: the method neither returns \<^verbatim>\<open>None\<close> nor an empty list. Whenever it
  returns a list, the file has a \<^verbatim>\<open>labels\<close> member that is a mapping.
\<close>

theorem readSegmentIdsAndLabels_needs_labels:
  "(\<forall>d members.
      datasetPath E p = Some d \<and> read_text E d = Some (JsonText (JObj members)) \<and>
      ''labels'' \<notin> fst ` set members \<longrightarrow>
      readSegmentIdsAndLabelsFromDatasetFile E p = Inl AttributeError) \<and>
   (\<forall>d t dataset_dict.
      datasetPath E p = Some d \<and> read_text E d = Some t \<and>
      json_loads no_hook t = Inr (PDict dataset_dict) \<and>
      map_of dataset_dict ''labels'' = None \<longrightarrow>
      readSegmentIdsAndLabelsFromDatasetFile E p = Inl AttributeError) \<and>
   (\<forall>r. readSegmentIdsAndLabelsFromDatasetFile E p = Inr (Some r) \<longrightarrow>
      (\<exists>d t dataset_dict labels.
         datasetPath E p = Some d \<and> read_text E d = Some t \<and>
         json_loads no_hook t = Inr (PDict dataset_dict) \<and>
         map_of dataset_dict ''labels'' = Some (PDict labels)))"
proof -
  have decoded: "readSegmentIdsAndLabelsFromDatasetFile E p = Inl AttributeError"
    if "datasetPath E p = Some d" and "read_text E d = Some t"
      and "json_loads no_hook t = Inr (PDict dataset_dict)"
      and "map_of dataset_dict ''labels'' = None"
    for d t dataset_dict
    using that by (simp add: read_decoded)
  have from_file: "readSegmentIdsAndLabelsFromDatasetFile E p = Inl AttributeError"
    if d: "datasetPath E p = Some d" and t: "read_text E d = Some (JsonText (JObj members))"
      and l: "''labels'' \<notin> fst ` set members"
    for d members
  proof -
    from json_decode_no_hook_object [of members]
    obtain kvs where dec: "json_decode no_hook (JObj members) = Inr (PDict (dict_of_pairs kvs))"
      and keys: "map fst kvs = map fst members"
      by blast
    from keys have "fst ` set kvs = fst ` set members"
      by (metis list.set_map)
    with l have "''labels'' \<notin> fst ` set (dict_of_pairs kvs)"
      by (simp add: dict_of_pairs_keys)
    then have none: "map_of (dict_of_pairs kvs) ''labels'' = None"
      by (simp add: map_of_eq_None_iff)
    from dec have "json_loads no_hook (JsonText (JObj members)) = Inr (PDict (dict_of_pairs kvs))"
      by (simp add: json_loads_def)
    from decoded [OF d t this none] show ?thesis .
  qed
  have returned: "\<exists>d t dataset_dict labels.
         datasetPath E p = Some d \<and> read_text E d = Some t \<and>
         json_loads no_hook t = Inr (PDict dataset_dict) \<and>
         map_of dataset_dict ''labels'' = Some (PDict labels)"
    if "readSegmentIdsAndLabelsFromDatasetFile E p = Inr (Some r)" for r
    using read_Some_D [OF that] by blast
  from decoded from_file returned show ?thesis
    by (intro conjI allI impI) (blast+)
qed

theorem readSegmentIdsAndLabels_needs_labels_witness:
  "read_text example_env (Path ''bad/Dataset001/3d_fullres/dataset.json'') =
     Some (JsonText (JObj [(''name'', JStr ''Dataset001'')])) \<and>
   readSegmentIdsAndLabelsFromDatasetFile example_env (example_parameter\<lparr>modelPath := Path ''bad''\<rparr>) =
     Inl AttributeError \<and>
   (\<exists>d t dataset_dict labels.
      datasetPath example_env example_parameter = Some d \<and> read_text example_env d = Some t \<and>
      json_loads no_hook t = Inr (PDict dataset_dict) \<and>
      map_of dataset_dict ''labels'' = Some (PDict labels))"
proof -
  let ?D = "Path ''bad/Dataset001/3d_fullres/dataset.json''"
  let ?q = "example_parameter\<lparr>modelPath := Path ''bad''\<rparr>"
  have some: "datasetPath example_env ?q = Some ?D"
    by code_simp
  have content: "read_text example_env ?D = Some (JsonText (JObj [(''name'', JStr ''Dataset001'')]))"
    by code_simp
  have absent: "''labels'' \<notin> fst ` set [(''name'', JStr ''Dataset001'')]"
    by simp
  have good: "readSegmentIdsAndLabelsFromDatasetFile example_env example_parameter =
     Inr (Some [(''Segment_1'', ''bone''), (''Segment_2'', ''liver'')])"
    by code_simp
  from readSegmentIdsAndLabels_needs_labels [of example_env ?q] some content absent
  have a: "readSegmentIdsAndLabelsFromDatasetFile example_env ?q = Inl AttributeError"
    by blast
  from readSegmentIdsAndLabels_needs_labels [of example_env example_parameter] good
  have b: "\<exists>d t dataset_dict labels.
      datasetPath example_env example_parameter = Some d \<and> read_text example_env d = Some t \<and>
      json_loads no_hook t = Inr (PDict dataset_dict) \<and>
      map_of dataset_dict ''labels'' = Some (PDict labels)"
    by blast
  from a b content show ?thesis by blast
qed

subsection \<open>Restoring from the settings\<close>

lemma fromSettings_loop_assign:
  assumes "\<And>kv q. kv \<in> set kvs \<Longrightarrow>
     (\<exists>q'. setValue q (fst kv) (snd kv) = Inr q') \<or> setValue q (fst kv) (snd kv) = Inl TypeError"
  shows "fromSettings_loop setValue q kvs = Inr (assign_members setValue kvs q)"
  using assms
proof (induction kvs arbitrary: q)
  case Nil
  then show ?case by (simp add: assign_members_def)
next
  case (Cons kv kvs)
  have step: "(\<exists>q'. setValue q (fst kv) (snd kv) = Inr q') \<or>
      setValue q (fst kv) (snd kv) = Inl TypeError"
    using Cons.prems [of kv q] by simp
  have rest: "fromSettings_loop setValue q' kvs = Inr (assign_members setValue kvs q')" for q'
    using Cons.IH [of q'] Cons.prems by simp
  from step show ?case
  proof
    assume "\<exists>q'. setValue q (fst kv) (snd kv) = Inr q'"
    then obtain q' where "setValue q (fst kv) (snd kv) = Inr q'" ..
    then show ?thesis
      using rest [of q'] by (simp add: assign_members_def)
  next
    assume "setValue q (fst kv) (snd kv) = Inl TypeError"
    then show ?thesis
      using rest [of q] by (simp add: assign_members_def)
  qed
qed

lemma fromSettings_stored:
  "fromSettings setValue settings key Q =
     (case (case Q (case settings of Some r \<Rightarrow> r | None \<Rightarrow> QSettings_default)
                   (if key \<noteq> [] then key else defaultSettingsKey) of
              None \<Rightarrow> Inr (PDict [])
            | Some t \<Rightarrow> if text_truthy t then json_loads decodePath t else Inr (PDict [])) of
        Inl e \<Rightarrow> Inl e
      | Inr (PDict val_dict) \<Rightarrow> fromSettings_loop setValue Parameter_default val_dict
      | Inr _ \<Rightarrow> Inl AttributeError)"
  by (simp add: fromSettings_def Let_def split: option.splits)

text \<open>
  Claim C7, as amended. \<^verbatim>\<open>fromSettings\<close> returns a fully constructed object, all
  defaults, when nothing or the empty text is stored under the key. When the stored text
  is a JSON object that the decoder turns into a \<^verbatim>\<open>dict\<close>, and \<^verbatim>\<open>setValue\<close> either assigns
  or rejects with \<^verbatim>\<open>TypeError\<close> each of its members, it returns the default object with
  the members assigned in turn: a rejected member is skipped and leaves the object as it
  was. A stored text that is not JSON raises \<^verbatim>\<open>JSONDecodeError\<close>, an exception of the
  path hook leaves the call, and a JSON value that does not decode to a \<^verbatim>\<open>dict\<close> raises
  \<^verbatim>\<open>AttributeError\<close>.
\<close>

theorem fromSettings_best_effort:
  fixes setValue :: setter and settings :: "nat option" and key :: string and Q :: qsettings
  defines "stored \<equiv> Q (case settings of Some r \<Rightarrow> r | None \<Rightarrow> QSettings_default)
                        (if key \<noteq> [] then key else defaultSettingsKey)"
  shows
  "(stored = None \<or> stored = Some (OtherText '''') \<longrightarrow>
      fromSettings setValue settings key Q = Inr Parameter_default) \<and>
   (\<forall>members val_dict.
      stored = Some (JsonText (JObj members)) \<and>
      json_decode decodePath (JObj members) = Inr (PDict val_dict) \<and>
      (\<forall>kv \<in> set val_dict. \<forall>q.
         (\<exists>q'. setValue q (fst kv) (snd kv) = Inr q') \<or>
         setValue q (fst kv) (snd kv) = Inl TypeError) \<longrightarrow>
      fromSettings setValue settings key Q =
        Inr (assign_members setValue val_dict Parameter_default)) \<and>
   (\<forall>t. stored = Some (OtherText t) \<and> t \<noteq> '''' \<longrightarrow>
      fromSettings setValue settings key Q = Inl JSONDecodeError) \<and>
   (\<forall>j e. stored = Some (JsonText j) \<and> json_decode decodePath j = Inl e \<longrightarrow>
      fromSettings setValue settings key Q = Inl e) \<and>
   (\<forall>j v. stored = Some (JsonText j) \<and> json_decode decodePath j = Inr v \<and>
      (\<forall>val_dict. v \<noteq> PDict val_dict) \<longrightarrow>
      fromSettings setValue settings key Q = Inl AttributeError)"
proof -
  have absent: "stored = None \<or> stored = Some (OtherText '''') \<longrightarrow>
      fromSettings setValue settings key Q = Inr Parameter_default"
    unfolding stored_def by (auto simp: fromSettings_stored)
  have object: "fromSettings setValue settings key Q =
        Inr (assign_members setValue val_dict Parameter_default)"
    if "stored = Some (JsonText (JObj members))"
      and "json_decode decodePath (JObj members) = Inr (PDict val_dict)"
      and "\<forall>kv \<in> set val_dict. \<forall>q.
         (\<exists>q'. setValue q (fst kv) (snd kv) = Inr q') \<or>
         setValue q (fst kv) (snd kv) = Inl TypeError"
    for members val_dict
  proof -
    from that(3) have "fromSettings_loop setValue Parameter_default val_dict =
        Inr (assign_members setValue val_dict Parameter_default)"
      by (intro fromSettings_loop_assign) blast
    with that(1,2) show ?thesis
      unfolding stored_def by (simp add: fromSettings_stored json_loads_def)
  qed
  have garbage: "\<forall>t. stored = Some (OtherText t) \<and> t \<noteq> '''' \<longrightarrow>
      fromSettings setValue settings key Q = Inl JSONDecodeError"
    unfolding stored_def by (auto simp: fromSettings_stored json_loads_def)
  have hook_raises: "\<forall>j e. stored = Some (JsonText j) \<and> json_decode decodePath j = Inl e \<longrightarrow>
      fromSettings setValue settings key Q = Inl e"
    unfolding stored_def by (auto simp: fromSettings_stored json_loads_def)
  have not_object: "\<forall>j v. stored = Some (JsonText j) \<and> json_decode decodePath j = Inr v \<and>
      (\<forall>val_dict. v \<noteq> PDict val_dict) \<longrightarrow>
      fromSettings setValue settings key Q = Inl AttributeError"
    unfolding stored_def
    by (auto simp: fromSettings_stored json_loads_def split: pyval.splits)
  from absent object garbage hook_raises not_object show ?thesis
    by (intro conjI allI impI) (blast+)
qed

theorem fromSettings_best_effort_witness:
  "fromSettings annotated_setValue None '''' empty_settings = Inr Parameter_default \<and>
   fromSettings annotated_setValue None ''''
     (store_with (JsonText (JObj [(''device'', JInt 3), (''folds'', JStr ''0,1''),
        (''modelPath'', JObj [(''_path'', JStr ''m'')])]))) =
     Inr (Parameter_default\<lparr>folds := ''0,1'', modelPath := Path ''m''\<rparr>)"
proof -
  let ?members = "[(''device'', JInt 3), (''folds'', JStr ''0,1''),
        (''modelPath'', JObj [(''_path'', JStr ''m'')])]"
  let ?dict = "[(''device'', PInt 3), (''folds'', PStr ''0,1''), (''modelPath'', PPath (Path ''m''))]"
  let ?Q = "store_with (JsonText (JObj ?members))"
  have absent: "empty_settings (case None of Some r \<Rightarrow> r | None \<Rightarrow> QSettings_default)
      (if '''' \<noteq> [] then '''' else defaultSettingsKey) = None"
    by (simp add: empty_settings_def)
  have stored: "?Q (case None of Some r \<Rightarrow> r | None \<Rightarrow> QSettings_default)
      (if '''' \<noteq> [] then '''' else defaultSettingsKey) = Some (JsonText (JObj ?members))"
    by (simp add: store_with_def)
  have decoded: "json_decode decodePath (JObj ?members) = Inr (PDict ?dict)"
    by code_simp
  have members_ok: "\<forall>kv \<in> set ?dict. \<forall>q.
      (\<exists>q'. annotated_setValue q (fst kv) (snd kv) = Inr q') \<or>
      annotated_setValue q (fst kv) (snd kv) = Inl TypeError"
    by (simp add: annotated_setValue_def)
  have result: "assign_members annotated_setValue ?dict Parameter_default =
      Parameter_default\<lparr>folds := ''0,1'', modelPath := Path ''m''\<rparr>"
    by (simp add: assign_members_def annotated_setValue_def)
  from fromSettings_best_effort [of empty_settings None "''''" annotated_setValue] absent
  have a: "fromSettings annotated_setValue None '''' empty_settings = Inr Parameter_default"
    by blast
  from fromSettings_best_effort [of ?Q None "''''" annotated_setValue] stored decoded members_ok
  have "fromSettings annotated_setValue None '''' ?Q =
      Inr (assign_members annotated_setValue ?dict Parameter_default)"
    by blast
  with result a show ?thesis by simp
qed

text \<open>
  Claim C7 as stated, that \<^verbatim>\<open>fromSettings\<close> never fails whatever is stored under the key,
  does not hold: the stored texts \<^verbatim>\<open>[]\<close>, \<^verbatim>\<open>{\<close> and \<^verbatim>\<open>{"modelPath": {"_path": 1}}\<close> make
  it raise.
\<close>

theorem fromSettings_raises_on_malformed_store:
  "fromSettings annotated_setValue None '''' (store_with (JsonText (JArr []))) = Inl AttributeError \<and>
   fromSettings annotated_setValue None '''' (store_with (OtherText ''{'')) = Inl JSONDecodeError \<and>
   fromSettings annotated_setValue None ''''
     (store_with (JsonText (JObj [(''modelPath'', JObj [(''_path'', JInt 1)])]))) = Inl TypeError"
  by code_simp

subsection \<open>Texts of integers and of lists\<close>

lemma split_acc_piece:
  "x \<notin> set c \<Longrightarrow> split_acc acc [x] (c @ s) = split_acc (rev c @ acc) [x] s"
  by (induction c arbitrary: acc) auto

lemma split_acc_sep: "split_acc acc [x] (x # s) = rev acc # split_acc [] [x] s"
  by simp

lemma split_acc_last: "x \<notin> set c \<Longrightarrow> split_acc acc [x] c = [rev acc @ c]"
  using split_acc_piece [of x c acc "[]"] by simp

lemma split_acc_join:
  assumes "\<forall>c \<in> set (p # ps). x \<notin> set c"
  shows "split_acc acc [x] (join [x] (p # ps)) = (rev acc @ p) # ps"
  using assms
proof (induction ps arbitrary: p acc)
  case Nil
  then show ?case by (simp add: split_acc_last)
next
  case (Cons q qs)
  from Cons.prems have p: "x \<notin> set p" and rest: "\<forall>c \<in> set (q # qs). x \<notin> set c"
    by simp_all
  have "split_acc acc [x] (join [x] (p # q # qs)) =
      split_acc (rev p @ acc) [x] (x # join [x] (q # qs))"
    using split_acc_piece [OF p, of acc "x # join [x] (q # qs)"] by simp
  also have "\<dots> = (rev acc @ p) # split_acc [] [x] (join [x] (q # qs))"
    by simp
  also have "split_acc [] [x] (join [x] (q # qs)) = q # qs"
    using Cons.IH [OF rest, of "[]"] by simp
  finally show ?case .
qed

lemma split_join:
  assumes "ps \<noteq> []" and "\<forall>c \<in> set ps. x \<notin> set c"
  shows "split (join [x] ps) [x] = ps"
proof -
  from assms(1) obtain p qs where "ps = p # qs" by (cases ps) auto
  with assms(2) split_acc_join [of p qs x "[]"] show ?thesis
    by (simp add: split_def)
qed

lemma of_char_digit_char: "k < 10 \<Longrightarrow> of_char (digit_char k) = 48 + k"
  by (simp add: digit_char_def)

lemma digit_char_not_below:
  assumes "k < 10" and "(of_char c :: nat) < 48"
  shows "digit_char k \<noteq> c"
proof
  assume "digit_char k = c"
  then have "(of_char (digit_char k) :: nat) = of_char c" by simp
  with assms show False by (simp add: of_char_digit_char)
qed

lemma digit_char_props:
  assumes "k < 10"
  shows "is_digit (digit_char k)" and "digit_val (digit_char k) = k"
    and "\<not> is_space (digit_char k)" and "digit_char k \<noteq> CHR '',''"
    and "digit_char k \<noteq> CHR ''/''" and "digit_char k \<noteq> CHR ''-''" and "digit_char k \<noteq> CHR ''+''"
  using assms
  by (simp_all add: is_digit_def digit_val_def is_space_def of_char_digit_char
      digit_char_not_below Let_def)

lemma is_digit_props:
  assumes "is_digit c"
  shows "\<not> is_space c" and "c \<noteq> CHR '',''" and "c \<noteq> CHR ''/''" and "c \<noteq> CHR ''-''"
    and "c \<noteq> CHR ''+''" and "c \<noteq> CHR ''.''"
  using assms by (auto simp: is_digit_def is_space_def Let_def)

lemma str_nat_digits: "c \<in> set (str_nat n) \<Longrightarrow> is_digit c"
proof (induction n rule: str_nat.induct)
  case (1 n)
  then show ?case
    by (subst (asm) str_nat.simps) (auto simp: digit_char_props split: if_splits)
qed

lemma str_nat_nonempty: "str_nat n \<noteq> []"
  by (subst str_nat.simps) simp

lemma int_digits_all_digits:
  assumes "\<forall>c \<in> set ds. is_digit c" and "ds \<noteq> [] \<or> after_digit"
  shows "int_digits after_digit acc ds = Inr (foldl (\<lambda>a c. 10 * a + digit_val c) acc ds)"
  using assms by (induction ds arbitrary: acc after_digit) auto

lemma str_nat_value: "foldl (\<lambda>a c. 10 * a + digit_val c) 0 (str_nat n) = n"
proof (induction n rule: str_nat.induct)
  case (1 n)
  show ?case
  proof (cases "n < 10")
    case True
    then show ?thesis
      by (subst str_nat.simps) (simp add: digit_char_props)
  next
    case False
    with 1 have "foldl (\<lambda>a c. 10 * a + digit_val c) 0 (str_nat (n div 10)) = n div 10"
      by simp
    with False show ?thesis
      by (subst str_nat.simps) (simp add: digit_char_props)
  qed
qed

lemma strip_unchanged:
  assumes "s \<noteq> []" and "\<not> is_space (hd s)" and "\<not> is_space (last s)"
  shows "strip s = s"
proof -
  from assms(1,2) have a: "dropWhile is_space s = s"
    by (cases s) auto
  from assms(1,3) have "dropWhile is_space (rev s) = rev s"
    by (cases "rev s") (auto simp: hd_rev)
  with a show ?thesis by (simp add: strip_def)
qed

lemma strip_digits:
  assumes "s \<noteq> []" and "is_digit (hd s)" and "is_digit (last s)"
  shows "strip s = s"
  using assms by (intro strip_unchanged) (simp_all add: is_digit_props)

lemma py_int_str_nat: "py_int (str_nat n) = Inr (int n)"
proof -
  obtain c cs where s: "str_nat n = c # cs"
    using str_nat_nonempty [of n] by (cases "str_nat n") auto
  have all: "\<forall>c \<in> set (str_nat n). is_digit c"
    using str_nat_digits by blast
  then have "is_digit (hd (str_nat n))" "is_digit (last (str_nat n))"
    using str_nat_nonempty [of n] by simp_all
  then have strip: "strip (str_nat n) = c # cs"
    using strip_digits [of "str_nat n"] str_nat_nonempty [of n] s by simp
  from all s have c: "is_digit c" by simp
  have "int_digits False 0 (c # cs) = Inr n"
    using int_digits_all_digits [of "str_nat n" False 0] all str_nat_nonempty [of n]
    by (simp add: s [symmetric] str_nat_value)
  with strip c show ?thesis
    by (simp add: py_int_def is_digit_props)
qed

subsection \<open>The requested folds\<close>

lemma join_nonempty: "x \<noteq> [] \<Longrightarrow> join sep (x # xs) \<noteq> []"
  by (cases xs) auto

lemma hd_join: "x \<noteq> [] \<Longrightarrow> hd (join sep (x # xs)) = hd x"
  by (cases xs) auto

lemma join_last_nonempty: "xs \<noteq> [] \<Longrightarrow> last xs \<noteq> [] \<Longrightarrow> join sep xs \<noteq> []"
  by (induction sep xs rule: join.induct) simp_all

lemma last_join:
  "xs \<noteq> [] \<Longrightarrow> last xs \<noteq> [] \<Longrightarrow> last (join sep xs) = last (last xs)"
proof (induction sep xs rule: join.induct)
  case (3 sep x y ys)
  then have "join sep (y # ys) \<noteq> []"
    by (intro join_last_nonempty) simp_all
  with 3 show ?case by simp
qed simp_all

lemma traverse_py_int_str_nat: "traverse py_int (map str_nat ns) = Inr (map int ns)"
  by (induction ns) (simp_all add: py_int_str_nat)

lemma foldsAsList_join:
  assumes "ns \<noteq> []" and "folds p = join '','' (map str_nat ns)"
  shows "foldsAsList p = Inr (map int ns)"
proof -
  let ?xs = "map str_nat ns"
  from assms(1) obtain n ms where ns: "ns = n # ms" by (cases ns) auto
  have pieces: "\<forall>c \<in> set ?xs. CHR '','' \<notin> set c"
    using str_nat_digits is_digit_props(2) by fastforce
  have nonempty: "join '','' ?xs \<noteq> []"
    using ns by (simp add: join_nonempty str_nat_nonempty)
  have "hd (join '','' ?xs) = hd (str_nat n)"
    using ns by (simp add: hd_join str_nat_nonempty)
  then have first: "is_digit (hd (join '','' ?xs))"
    using str_nat_digits [of "hd (str_nat n)" n] str_nat_nonempty [of n] by simp
  have "last (join '','' ?xs) = last (str_nat (last ns))"
    using assms(1) by (simp add: last_join str_nat_nonempty last_map)
  then have final: "is_digit (last (join '','' ?xs))"
    using str_nat_digits [of "last (str_nat (last ns))" "last ns"] str_nat_nonempty [of "last ns"]
    by simp
  have "strip (join '','' ?xs) = join '','' ?xs"
    using nonempty first final by (rule strip_digits)
  moreover have "split (join '','' ?xs) '','' = ?xs"
    using assms(1) pieces by (intro split_join) simp_all
  ultimately show ?thesis
    using nonempty by (simp add: foldsAsList_def assms(2) traverse_py_int_str_nat)
qed

lemma Path_single:
  assumes "CHR ''/'' \<notin> set s" and "s \<noteq> []" and "s \<noteq> ''.''"
  shows "Path s = PosixPath [] [s]"
proof -
  from assms(1,2) have "\<not> prefix ''/'' s"
    by (cases s) auto
  moreover have "split s ''/'' = [s]"
    using split_acc_last [OF assms(1), of "[]"] by (simp add: split_def)
  ultimately show ?thesis
    using assms(2,3) by (simp add: Path_def path_root_of_def)
qed

lemma str_int_no_slash: "CHR ''/'' \<notin> set (str_int i)"
proof
  assume "CHR ''/'' \<in> set (str_int i)"
  then have "\<exists>n. CHR ''/'' \<in> set (str_nat n)"
    by (auto simp: str_int_def split: if_splits)
  then obtain n where "CHR ''/'' \<in> set (str_nat n)" ..
  from is_digit_props(3) [OF str_nat_digits [OF this]] show False by simp
qed

lemma fold_folder_child:
  "joinpath c (''fold_'' @ str_int i) =
     PosixPath (path_root c) (path_parts c @ [''fold_'' @ str_int i])"
proof -
  have "Path (''fold_'' @ str_int i) = PosixPath [] [''fold_'' @ str_int i]"
    using str_int_no_slash [of i] by (intro Path_single) simp_all
  then show ?thesis by (simp add: joinpath_def)
qed

text \<open>
  Claim C6. The empty folds text stands for the single fold 0. A folds text that lists
  one or more non-negative integers in decimal, separated by commas, is decoded to the
  list of these integers, in order. With the dataset file found, the fold folder of a
  requested fold \<open>i\<close> is the configuration folder joined with \<^verbatim>\<open>fold_<i>\<close>, the child of
  that name; these are the folders \<^verbatim>\<open>_getFoldPaths\<close> hands to the checks. The limit an
  interpreter may put on the number of digits of one integer is not modelled.
\<close>

theorem foldsAsList_and_fold_folders:
  "(folds p = '''' \<longrightarrow> foldsAsList p = Inr [0]) \<and>
   (\<forall>ns. ns \<noteq> [] \<and> folds p = join '','' (map str_nat ns) \<longrightarrow>
      foldsAsList p = Inr (map int ns)) \<and>
   (\<forall>d fs. datasetPath E p = Some d \<and> foldsAsList p = Inr fs \<longrightarrow>
      configurationFolder E p = Inr (parent d) \<and>
      getFoldPaths E p = Inr (map (\<lambda>i. (i, joinpath (parent d) (''fold_'' @ str_int i))) fs) \<and>
      (\<forall>i. joinpath (parent d) (''fold_'' @ str_int i) =
         PosixPath (path_root (parent d)) (path_parts (parent d) @ [''fold_'' @ str_int i])))"
proof -
  have empty: "folds p = '''' \<longrightarrow> foldsAsList p = Inr [0]"
    by (simp add: foldsAsList_def)
  have listed: "\<forall>ns. ns \<noteq> [] \<and> folds p = join '','' (map str_nat ns) \<longrightarrow>
      foldsAsList p = Inr (map int ns)"
    using foldsAsList_join by blast
  have folders: "configurationFolder E p = Inr (parent d) \<and>
      getFoldPaths E p = Inr (map (\<lambda>i. (i, joinpath (parent d) (''fold_'' @ str_int i))) fs)"
    if "datasetPath E p = Some d" and "foldsAsList p = Inr fs" for d fs
    using that by (simp add: getFoldPaths_eq configurationFolder_def)
  from empty listed folders fold_folder_child show ?thesis
    by (intro conjI allI impI) (blast+)
qed

theorem foldsAsList_and_fold_folders_witness:
  "foldsAsList example_parameter = Inr [0] \<and>
   join '','' (map str_nat [0, 2, 13]) = ''0,2,13'' \<and>
   foldsAsList (example_parameter\<lparr>folds := ''0,2,13''\<rparr>) = Inr [0, 2, 13] \<and>
   getFoldPaths example_env (example_parameter\<lparr>folds := ''0,2,13''\<rparr>) =
     Inr [(0, Path ''m/Dataset001/nnUNetTrainer__nnUNetPlans__3d_fullres/fold_0''),
          (2, Path ''m/Dataset001/nnUNetTrainer__nnUNetPlans__3d_fullres/fold_2''),
          (13, Path ''m/Dataset001/nnUNetTrainer__nnUNetPlans__3d_fullres/fold_13'')]"
proof -
  let ?q = "example_parameter\<lparr>folds := ''0,2,13''\<rparr>"
  let ?D = "Path ''m/Dataset001/nnUNetTrainer__nnUNetPlans__3d_fullres/dataset.json''"
  have e: "folds example_parameter = ''''"
    by (simp add: example_parameter_def Parameter_default_def)
  have j: "join '','' (map str_nat [0, 2, 13]) = ''0,2,13''"
    by code_simp
  then have f: "folds ?q = join '','' (map str_nat [0, 2, 13])"
    by simp
  have d: "datasetPath example_env ?q = Some ?D"
    by code_simp
  have paths: "map (\<lambda>i. (i, joinpath (parent ?D) (''fold_'' @ str_int i))) [0, 2, 13] =
     [(0, Path ''m/Dataset001/nnUNetTrainer__nnUNetPlans__3d_fullres/fold_0''),
      (2, Path ''m/Dataset001/nnUNetTrainer__nnUNetPlans__3d_fullres/fold_2''),
      (13, Path ''m/Dataset001/nnUNetTrainer__nnUNetPlans__3d_fullres/fold_13'')]"
    by code_simp
  from foldsAsList_and_fold_folders [of example_parameter example_env] e
  have a: "foldsAsList example_parameter = Inr [0]"
    by blast
  from foldsAsList_and_fold_folders [of ?q example_env] f
  have "foldsAsList ?q = Inr (map int [0, 2, 13])"
    by blast
  then have b: "foldsAsList ?q = Inr [0, 2, 13]"
    by simp
  from foldsAsList_and_fold_folders [of ?q example_env] d b
  have "getFoldPaths example_env ?q =
      Inr (map (\<lambda>i. (i, joinpath (parent ?D) (''fold_'' @ str_int i))) [0, 2, 13])"
    by blast
  with paths have c: "getFoldPaths example_env ?q =
     Inr [(0, Path ''m/Dataset001/nnUNetTrainer__nnUNetPlans__3d_fullres/fold_0''),
          (2, Path ''m/Dataset001/nnUNetTrainer__nnUNetPlans__3d_fullres/fold_2''),
          (13, Path ''m/Dataset001/nnUNetTrainer__nnUNetPlans__3d_fullres/fold_13'')]"
    by simp
  from a j b c show ?thesis by blast
qed

subsection \<open>Paths and their texts\<close>

lemma split_acc_no_sep:
  "x \<notin> set acc \<Longrightarrow> \<forall>c \<in> set (split_acc acc [x] s). x \<notin> set c"
  by (induction acc "[x]" s rule: split_acc.induct) auto

lemma wf_path_Path: "wf_path (Path s)"
  using split_acc_no_sep [of "CHR ''/''" "[]" s]
  by (auto simp: wf_path_def Path_def path_root_of_def split_def)

lemma join_cons_nonempty:
  "ps \<noteq> [] \<Longrightarrow> join sep (p # ps) = p @ sep @ join sep ps"
  by (cases ps) simp_all

lemma split_slashes_join:
  assumes "\<forall>c \<in> set ps. c \<noteq> '''' \<and> c \<noteq> ''.'' \<and> CHR ''/'' \<notin> set c"
  shows "filter (\<lambda>c. c \<noteq> '''' \<and> c \<noteq> ''.'') (split (join ''/'' ps) ''/'') = ps"
proof (cases ps)
  case Nil
  then show ?thesis by (simp add: split_def)
next
  case (Cons p qs)
  with assms have "split (join ''/'' ps) ''/'' = ps"
    by (intro split_join) auto
  moreover from assms have "filter (\<lambda>c. c \<noteq> '''' \<and> c \<noteq> ''.'') ps = ps"
    by (intro filter_True) auto
  ultimately show ?thesis by simp
qed

lemma hd_join_no_slash:
  assumes "\<forall>c \<in> set ps. c \<noteq> '''' \<and> CHR ''/'' \<notin> set c"
  shows "\<not> prefix ''/'' (join ''/'' ps)"
proof (cases ps)
  case Nil
  then show ?thesis by simp
next
  case (Cons p qs)
  with assms obtain a as where "p = a # as" "a \<noteq> CHR ''/''"
    by (cases p) auto
  with Cons show ?thesis
    by (cases qs) simp_all
qed

lemma Path_str_path:
  assumes "wf_path p"
  shows "Path (str_path p) = p"
proof -
  obtain r ps where p: "p = PosixPath r ps" by (cases p)
  from assms p have parts: "\<forall>c \<in> set ps. c \<noteq> '''' \<and> c \<noteq> ''.'' \<and> CHR ''/'' \<notin> set c"
    and r: "r = '''' \<or> r = ''/'' \<or> r = ''//''"
    by (simp_all add: wf_path_def)
  let ?j = "join ''/'' ps"
  have keep: "filter (\<lambda>c. c \<noteq> '''' \<and> c \<noteq> ''.'') (split ?j ''/'') = ps"
    using parts by (rule split_slashes_join)
  have nohd: "\<not> prefix ''/'' ?j"
    using parts by (intro hd_join_no_slash) auto
  have sp: "split (CHR ''/'' # s) ''/'' = '''' # split s ''/''" for s
    by (simp add: split_def)
  from r show ?thesis
  proof (elim disjE)
    assume e: "r = ''''"
    show ?thesis
    proof (cases "ps = []")
      case True
      with e p show ?thesis
        by (simp add: str_path_def Path_def path_root_of_def split_def)
    next
      case False
      with e p keep nohd show ?thesis
        by (simp add: str_path_def Path_def path_root_of_def)
    qed
  next
    assume e: "r = ''/''"
    have "path_root_of (CHR ''/'' # ?j) = ''/''"
      using nohd by (simp add: path_root_of_def)
    with e p keep show ?thesis
      by (simp add: str_path_def Path_def sp)
  next
    assume e: "r = ''//''"
    have "path_root_of (CHR ''/'' # CHR ''/'' # ?j) = ''//''"
      using nohd by (simp add: path_root_of_def)
    with e p keep show ?thesis
      by (simp add: str_path_def Path_def sp)
  qed
qed

subsection \<open>Saving and restoring\<close>

lemma encode_asDict:
  "PathEncoder_encode (asDict p) =
     Inr (JObj [(''folds'', JStr (folds p)),
                (''device'', JStr (device p)),
                (''stepSize'', JFloat (stepSize p)),
                (''disableTta'', JBool (disableTta p)),
                (''nProcessPreprocessing'', JInt (nProcessPreprocessing p)),
                (''nProcessSegmentationExport'', JInt (nProcessSegmentationExport p)),
                (''checkPointName'', JStr (checkPointName p)),
                (''modelPath'', JObj [(''_path'', JStr (str_path (modelPath p)))])])"
  by (simp add: asDict_def PathEncoder_default_def)

lemma decode_tagged_path:
  "json_decode decodePath (JObj [(''_path'', JStr s)]) = Inr (PPath (Path s))"
  by (simp add: dict_of_pairs_def decodePath_def)

lemma decode_asDict:
  assumes "Path (str_path (modelPath p)) = modelPath p"
  shows "json_decode decodePath
      (JObj [(''folds'', JStr (folds p)),
             (''device'', JStr (device p)),
             (''stepSize'', JFloat (stepSize p)),
             (''disableTta'', JBool (disableTta p)),
             (''nProcessPreprocessing'', JInt (nProcessPreprocessing p)),
             (''nProcessSegmentationExport'', JInt (nProcessSegmentationExport p)),
             (''checkPointName'', JStr (checkPointName p)),
             (''modelPath'', JObj [(''_path'', JStr (str_path (modelPath p)))])]) =
     Inr (asDict p)"
  using assms by (simp add: dict_of_pairs_def decodePath_def asDict_def)

lemma loop_asDict:
  assumes "accepts setValue p"
  shows "fromSettings_loop setValue Parameter_default
      [(''folds'', PStr (folds p)),
       (''device'', PStr (device p)),
       (''stepSize'', PFloat (stepSize p)),
       (''disableTta'', PBool (disableTta p)),
       (''nProcessPreprocessing'', PInt (nProcessPreprocessing p)),
       (''nProcessSegmentationExport'', PInt (nProcessSegmentationExport p)),
       (''checkPointName'', PStr (checkPointName p)),
       (''modelPath'', PPath (modelPath p))] = Inr p"
proof -
  from assms have sv:
    "\<And>q. setValue q ''folds'' (PStr (folds p)) = Inr (q\<lparr>folds := folds p\<rparr>)"
    "\<And>q. setValue q ''device'' (PStr (device p)) = Inr (q\<lparr>device := device p\<rparr>)"
    "\<And>q. setValue q ''stepSize'' (PFloat (stepSize p)) = Inr (q\<lparr>stepSize := stepSize p\<rparr>)"
    "\<And>q. setValue q ''disableTta'' (PBool (disableTta p)) = Inr (q\<lparr>disableTta := disableTta p\<rparr>)"
    "\<And>q. setValue q ''nProcessPreprocessing'' (PInt (nProcessPreprocessing p)) =
            Inr (q\<lparr>nProcessPreprocessing := nProcessPreprocessing p\<rparr>)"
    "\<And>q. setValue q ''nProcessSegmentationExport'' (PInt (nProcessSegmentationExport p)) =
            Inr (q\<lparr>nProcessSegmentationExport := nProcessSegmentationExport p\<rparr>)"
    "\<And>q. setValue q ''checkPointName'' (PStr (checkPointName p)) =
            Inr (q\<lparr>checkPointName := checkPointName p\<rparr>)"
    "\<And>q. setValue q ''modelPath'' (PPath (modelPath p)) = Inr (q\<lparr>modelPath := modelPath p\<rparr>)"
    unfolding accepts_def by blast+
  have "Parameter_default\<lparr>folds := folds p, device := device p, stepSize := stepSize p,
      disableTta := disableTta p, nProcessPreprocessing := nProcessPreprocessing p,
      nProcessSegmentationExport := nProcessSegmentationExport p,
      checkPointName := checkPointName p, modelPath := modelPath p\<rparr> = p"
    by (simp add: Parameter_default_def)
  then show ?thesis
    by (simp add: sv)
qed

text \<open>
  Claim C3. For every parameter object, settings object and key, \<^verbatim>\<open>toSettings\<close> followed
  by \<^verbatim>\<open>fromSettings\<close> on the same settings and key gives back the object, all eight
  fields. The encoder writes the model path as the tagged object with the member
  \<^verbatim>\<open>_path\<close>, and the decoder's hook turns it back into a path, so that the \<^verbatim>\<open>dict\<close>
  decoded is the one encoded, with the model path a path and not a text. The model path is
  a well-formed path, as every path object is, and \<^verbatim>\<open>setValue\<close> takes the values of the
  object's own fields.
\<close>

theorem settings_roundtrip:
  fixes setValue :: setter and settings :: "nat option" and key :: string and Q :: qsettings
  assumes "wf_path (modelPath p)" and "accepts setValue p"
  shows "\<exists>Q' t. toSettings p settings key Q = Inr Q' \<and>
     Q' (case settings of Some r \<Rightarrow> r | None \<Rightarrow> QSettings_default)
        (if key \<noteq> [] then key else defaultSettingsKey) = Some (JsonText t) \<and>
     PathEncoder_encode (PPath (modelPath p)) = Inr (JObj [(''_path'', JStr (str_path (modelPath p)))]) \<and>
     PathEncoder_encode (asDict p) = Inr t \<and>
     json_loads decodePath (JsonText t) = Inr (asDict p) \<and>
     fromSettings setValue settings key Q' = Inr p"
proof -
  let ?s = "case settings of Some r \<Rightarrow> r | None \<Rightarrow> QSettings_default"
  let ?k = "if key \<noteq> [] then key else defaultSettingsKey"
  let ?t = "JObj [(''folds'', JStr (folds p)),
                (''device'', JStr (device p)),
                (''stepSize'', JFloat (stepSize p)),
                (''disableTta'', JBool (disableTta p)),
                (''nProcessPreprocessing'', JInt (nProcessPreprocessing p)),
                (''nProcessSegmentationExport'', JInt (nProcessSegmentationExport p)),
                (''checkPointName'', JStr (checkPointName p)),
                (''modelPath'', JObj [(''_path'', JStr (str_path (modelPath p)))])]"
  let ?Q' = "Q(?s := (Q ?s)(?k \<mapsto> JsonText ?t))"
  have same_path: "Path (str_path (modelPath p)) = modelPath p"
    using assms(1) by (rule Path_str_path)
  have saved: "toSettings p settings key Q = Inr ?Q'"
    by (simp add: toSettings_def json_dumps_PathEncoder_def encode_asDict Let_def)
  have stored: "?Q' ?s ?k = Some (JsonText ?t)"
    by simp
  have tagged: "PathEncoder_encode (PPath (modelPath p)) =
      Inr (JObj [(''_path'', JStr (str_path (modelPath p)))])"
    by (simp add: PathEncoder_default_def)
  have loaded: "json_loads decodePath (JsonText ?t) = Inr (asDict p)"
    using decode_asDict [OF same_path] by (simp add: json_loads_def)
  have "fromSettings setValue settings key ?Q' =
      (case json_loads decodePath (JsonText ?t) of
         Inl e \<Rightarrow> Inl e
       | Inr (PDict val_dict) \<Rightarrow> fromSettings_loop setValue Parameter_default val_dict
       | Inr _ \<Rightarrow> Inl AttributeError)"
    unfolding fromSettings_stored stored by simp
  also have "\<dots> = Inr p"
    unfolding loaded using loop_asDict [OF assms(2)] by (simp add: asDict_def)
  finally have restored: "fromSettings setValue settings key ?Q' = Inr p" .
  from saved stored tagged encode_asDict loaded restored show ?thesis
    by blast
qed

theorem settings_roundtrip_witness:
  "wf_path (modelPath example_parameter) \<and>
   accepts annotated_setValue example_parameter \<and>
   (\<exists>Q'. toSettings example_parameter None '''' empty_settings = Inr Q' \<and>
      fromSettings annotated_setValue None '''' Q' = Inr example_parameter) \<and>
   (\<exists>Q'. toSettings example_parameter (Some 3) ''my/key'' empty_settings = Inr Q' \<and>
      fromSettings annotated_setValue (Some 3) ''my/key'' Q' = Inr example_parameter)"
proof -
  have wf: "wf_path (modelPath example_parameter)"
    by (simp add: example_parameter_def wf_path_Path)
  have acc: "accepts annotated_setValue example_parameter"
    by (simp add: accepts_def annotated_setValue_def example_parameter_def Parameter_default_def)
  from settings_roundtrip [OF wf acc, of None "''''" empty_settings]
  have a: "\<exists>Q'. toSettings example_parameter None '''' empty_settings = Inr Q' \<and>
      fromSettings annotated_setValue None '''' Q' = Inr example_parameter"
    by blast
  from settings_roundtrip [OF wf acc, of "Some 3" "''my/key''" empty_settings]
  have b: "\<exists>Q'. toSettings example_parameter (Some 3) ''my/key'' empty_settings = Inr Q' \<and>
      fromSettings annotated_setValue (Some 3) ''my/key'' Q' = Inr example_parameter"
    by blast
  from wf acc a b show ?thesis by blast
qed

end
